theory Spec2Isabelle
  imports Main "HOL-Library.Multiset"
begin

section \<open>Python strings and scalar values\<close>

text \<open>
  Strings are lists of 8-bit characters, read as the code points 0..255. The character
  classes below are those of Python's \<^verbatim>\<open>str.isspace\<close>, \<^verbatim>\<open>str.lower\<close> and
  \<^verbatim>\<open>str.upper\<close> on that range. The upper-case form of code point 223 is the two
  letters \<open>SS\<close>; those of 181 and 255 lie outside the range, so \<open>upper\<close> has no
  result on a string that holds one of them.
\<close>

definition isspace :: "char \<Rightarrow> bool" where
  "isspace c = ((of_char c :: nat) \<in> {9, 10, 11, 12, 13, 28, 29, 30, 31, 32, 133, 160})"

definition strip :: "string \<Rightarrow> string" where
  "strip s = rev (dropWhile isspace (rev (dropWhile isspace s)))"

definition isupper :: "char \<Rightarrow> bool" where
  "isupper c =
     (let n = (of_char c :: nat)
      in (65 \<le> n \<and> n \<le> 90) \<or> (192 \<le> n \<and> n \<le> 222 \<and> n \<noteq> 215))"

definition islower :: "char \<Rightarrow> bool" where
  "islower c =
     (let n = (of_char c :: nat)
      in (97 \<le> n \<and> n \<le> 122) \<or> (224 \<le> n \<and> n \<le> 254 \<and> n \<noteq> 247))"

text \<open>Upper and lower case differ by 32, which is bit 5 of the code point.\<close>

definition lower_char :: "char \<Rightarrow> char" where
  "lower_char c =
     (if isupper c
      then (case c of Char b0 b1 b2 b3 b4 b5 b6 b7 \<Rightarrow> Char b0 b1 b2 b3 b4 True b6 b7)
      else c)"

definition upper_char :: "char \<Rightarrow> char" where
  "upper_char c =
     (if islower c
      then (case c of Char b0 b1 b2 b3 b4 b5 b6 b7 \<Rightarrow> Char b0 b1 b2 b3 b4 False b6 b7)
      else c)"

definition lower :: "string \<Rightarrow> string" where
  "lower s = map lower_char s"

definition upper_chars :: "char \<Rightarrow> string" where
  "upper_chars c = (if (of_char c :: nat) = 223 then ''SS'' else [upper_char c])"

definition upper :: "string \<Rightarrow> string option" where
  "upper s =
     (if list_ex (\<lambda>c. (of_char c :: nat) = 181 \<or> (of_char c :: nat) = 255) s then None
      else Some (concat (map upper_chars s)))"

text \<open>\<^verbatim>\<open>s.replace(a, b)\<close> for one-character \<open>a\<close> and \<open>b\<close>.\<close>

definition replace_char :: "char \<Rightarrow> char \<Rightarrow> string \<Rightarrow> string" where
  "replace_char a b s = map (\<lambda>c. if c = a then b else c) s"

text \<open>\<^verbatim>\<open>sep.join(parts)\<close>.\<close>

fun join :: "string \<Rightarrow> string list \<Rightarrow> string" where
  "join sep [] = []"
| "join sep [x] = x"
| "join sep (x # y # ys) = x @ sep @ join sep (y # ys)"

definition digit_char :: "nat \<Rightarrow> char" where
  "digit_char d = ''0123456789'' ! d"

text \<open>\<^verbatim>\<open>str(n)\<close> for a non-negative integer.\<close>

fun str_nat :: "nat \<Rightarrow> string" where
  "str_nat n = (if n < 10 then [digit_char n] else str_nat (n div 10) @ [digit_char (n mod 10)])"

declare str_nat.simps [simp del]

text \<open>The format specifications \<^verbatim>\<open>{n:06d}\<close>, \<^verbatim>\<open>%m\<close>, ...: zero-padding to a minimum width.\<close>

definition zero_pad :: "nat \<Rightarrow> nat \<Rightarrow> string" where
  "zero_pad w n = replicate (w - length (str_nat n)) CHR ''0'' @ str_nat n"

text \<open>\<^verbatim>\<open>str(i)\<close> for an integer.\<close>

definition str_int :: "int \<Rightarrow> string" where
  "str_int i = (if i < 0 then ''-'' @ str_nat (nat (- i)) else str_nat (nat i))"

text \<open>
  What a table cell or \<^verbatim>\<open>row.get(column)\<close> can hold: Python's \<^verbatim>\<open>None\<close> (the column is
  absent), a missing cell (\<^verbatim>\<open>NaN\<close>, for which \<^verbatim>\<open>pd.isna\<close> is true), a string, an
  integer, a boolean, or a float other than \<^verbatim>\<open>NaN\<close>. Float formatting is not modelled: a
  float is kept as the string Python prints for it.
\<close>

datatype pyval = PyNone | NaN | PyStr string | PyInt int | PyBool bool | PyFloat string

fun py_str :: "pyval \<Rightarrow> string" where
  "py_str PyNone = ''None''"
| "py_str NaN = ''nan''"
| "py_str (PyStr s) = s"
| "py_str (PyInt i) = str_int i"
| "py_str (PyBool b) = (if b then ''True'' else ''False'')"
| "py_str (PyFloat r) = r"

definition pd_isna :: "pyval \<Rightarrow> bool" where
  "pd_isna v = (v = PyNone \<or> v = NaN)"

text \<open>A Python dictionary with insertion order: assigning to an existing key keeps its place.\<close>

fun dict_set :: "('k \<times> 'v) list \<Rightarrow> 'k \<Rightarrow> 'v \<Rightarrow> ('k \<times> 'v) list" where
  "dict_set [] k v = [(k, v)]"
| "dict_set ((k', v') # kvs) k v =
     (if k' = k then (k', v) # kvs else (k', v') # dict_set kvs k v)"

text \<open>\<^verbatim>\<open>a or b\<close> where \<open>a\<close> is \<^verbatim>\<open>None\<close> or a string: the empty string is falsy too.\<close>

definition truthy :: "string option \<Rightarrow> bool" where
  "truthy a = (case a of None \<Rightarrow> False | Some v \<Rightarrow> v \<noteq> [])"

definition py_or :: "string option \<Rightarrow> string \<Rightarrow> string" where
  "py_or a b = (case a of None \<Rightarrow> b | Some v \<Rightarrow> if v = [] then b else v)"

section \<open>Wall-clock time\<close>

record datetime =
  dt_year :: nat
  dt_month :: nat
  dt_day :: nat
  dt_hour :: nat
  dt_minute :: nat
  dt_second :: nat
  dt_microsecond :: nat

text \<open>
  \<^verbatim>\<open>datetime.now()\<close> reads an ambient clock. The clock is a parameter: the \<open>k\<close>-th reading of
  a process returns \<open>clk k\<close>, and the state counts the readings made so far.
\<close>

type_synonym clock = "nat \<Rightarrow> datetime"

text \<open>\<^verbatim>\<open>now.strftime('%Y%m%d%H%M%S')\<close>\<close>

definition strftime_YmdHMS :: "datetime \<Rightarrow> string" where
  "strftime_YmdHMS d =
     zero_pad 4 (dt_year d) @ zero_pad 2 (dt_month d) @ zero_pad 2 (dt_day d) @
     zero_pad 2 (dt_hour d) @ zero_pad 2 (dt_minute d) @ zero_pad 2 (dt_second d)"

definition isoformat :: "datetime \<Rightarrow> string" where
  "isoformat d =
     zero_pad 4 (dt_year d) @ ''-'' @ zero_pad 2 (dt_month d) @ ''-'' @ zero_pad 2 (dt_day d) @
     ''T'' @ zero_pad 2 (dt_hour d) @ '':'' @ zero_pad 2 (dt_minute d) @ '':'' @
     zero_pad 2 (dt_second d) @
     (if dt_microsecond d = 0 then [] else ''.'' @ zero_pad 6 (dt_microsecond d))"

text \<open>The values \<^verbatim>\<open>datetime\<close> can hold with a four-digit year.\<close>

definition valid_datetime :: "datetime \<Rightarrow> bool" where
  "valid_datetime d =
     (1000 \<le> dt_year d \<and> dt_year d \<le> 9999 \<and> 1 \<le> dt_month d \<and> dt_month d \<le> 12 \<and>
      1 \<le> dt_day d \<and> dt_day d \<le> 31 \<and> dt_hour d \<le> 23 \<and> dt_minute d \<le> 59 \<and>
      dt_second d \<le> 59 \<and> dt_microsecond d \<le> 999999)"

definition valid_clock :: "clock \<Rightarrow> bool" where
  "valid_clock clk = (\<forall>k. valid_datetime (clk k))"

section \<open>The entity and relationship model (kg\_builder.py)\<close>

text \<open>
  Property values. The two floating-point statistics of a survey entity are kept as the
  integers they are computed from: \<open>PVPercent a b\<close> stands for the float
  \<^verbatim>\<open>round((a / b) * 100, 2)\<close>.
\<close>

datatype propval = PVNone | PVStr string | PVInt int | PVPercent nat nat

record SurveyEntity =
  entity_id :: string
  entity_type :: string
  properties :: "(string \<times> propval) list"
  text_content :: "string option"

record SurveyRelationship =
  source_id :: string
  target_id :: string
  relationship_type :: string
  rel_properties :: "(string \<times> propval) list"

text \<open>
  The ontology is a user-supplied module, loaded at run time; the builder uses these of
  its attributes. \<open>RELATIONSHIP_MAPPINGS\<close> is a dictionary from a relationship type to
  its fields, in iteration order.
\<close>

record ontology =
  RELATIONSHIP_MAPPINGS :: "(string \<times> string list) list"
  FIELD_NAME_MAPPING :: "(string \<times> string) list"
  get_descriptive_field_name :: "string \<Rightarrow> string"
  get_category_class_name :: "string \<Rightarrow> string"
  get_category_for_field :: "string \<Rightarrow> string"
  get_field_description :: "string \<Rightarrow> string"
  get_all_survey_fields :: "string list"

text \<open>
  The table as \<^verbatim>\<open>pd.read_csv\<close> returns it: named columns, rows indexed 0, 1, ... in order,
  each row a list of cells aligned with the columns, and the inferred type name of each
  column.
\<close>

record dataframe =
  columns :: "string list"
  rows :: "pyval list list"
  dtype :: "string \<Rightarrow> string"

text \<open>\<^verbatim>\<open>row.get(column)\<close>: \<^verbatim>\<open>None\<close> when the row has no such column.\<close>

definition row_get :: "string list \<Rightarrow> pyval list \<Rightarrow> string \<Rightarrow> pyval" where
  "row_get cols row column = (case map_of (zip cols row) column of None \<Rightarrow> PyNone | Some v \<Rightarrow> v)"

text \<open>
  \<^verbatim>\<open>df.iterrows()\<close> returns each row as a series of one type. When every column is
  numeric and one of them holds floats, the integers of the row become floats, which
  print with \<open>.0\<close> (for magnitudes below \<open>10^16\<close>; the exponent notation of larger
  ones is not modelled). In every other table the cells come unchanged.
\<close>

definition upcasting :: "dataframe \<Rightarrow> bool" where
  "upcasting df =
     (list_all (\<lambda>c. dtype df c = ''int64'' \<or> dtype df c = ''float64'') (columns df) \<and>
      list_ex (\<lambda>c. dtype df c = ''float64'') (columns df))"

fun upcast_cell :: "pyval \<Rightarrow> pyval" where
  "upcast_cell (PyInt i) = PyFloat (str_int i @ ''.0'')"
| "upcast_cell v = v"

definition row_series :: "dataframe \<Rightarrow> pyval list \<Rightarrow> pyval list" where
  "row_series df row = (if upcasting df then map upcast_cell row else row)"

definition iterrows :: "dataframe \<Rightarrow> (nat \<times> pyval list) list" where
  "iterrows df = enumerate 0 (map (row_series df) (rows df))"

text \<open>The builder object; \<open>clock_reads\<close> counts the readings of the ambient clock.\<close>

record SurveyKGBuilder =
  entities :: "SurveyEntity list"
  relationships :: "SurveyRelationship list"
  respondent_counter :: nat
  respondent_id_mapping :: "nat \<rightharpoonup> string"
  clock_reads :: nat

text \<open>The state \<^verbatim>\<open>__init__\<close> leaves, in a process that has read the clock \<open>k\<close> times.\<close>

definition init_builder :: "nat \<Rightarrow> SurveyKGBuilder" where
  "init_builder k =
     \<lparr>entities = [], relationships = [], respondent_counter = 0,
      respondent_id_mapping = Map.empty, clock_reads = k\<rparr>"

definition respondent_id_format :: "nat \<Rightarrow> datetime \<Rightarrow> string" where
  "respondent_id_format counter now = zero_pad 6 counter @ strftime_YmdHMS now"

definition generate_unique_respondent_id ::
  "clock \<Rightarrow> nat \<Rightarrow> SurveyKGBuilder \<Rightarrow> string \<times> SurveyKGBuilder" where
  "generate_unique_respondent_id clk row_index s =
     (let now = clk (clock_reads s);
          unique_id = respondent_id_format (respondent_counter s) now
      in (unique_id,
          s\<lparr>clock_reads := clock_reads s + 1, respondent_counter := respondent_counter s + 1\<rparr>))"

definition safe_convert_value :: "pyval \<Rightarrow> string option" where
  "safe_convert_value v =
     (if v = PyNone \<or> pd_isna v then None
      else (let str_value = strip (py_str v)
            in if str_value = [] \<or> lower str_value \<in> set [''nan'', ''none'', ''null'']
               then None else Some str_value))"


subsection \<open>Respondent entities\<close>

definition extract_respondent_row ::
  "clock \<Rightarrow> string list \<Rightarrow> nat \<times> pyval list \<Rightarrow> SurveyKGBuilder \<Rightarrow> SurveyKGBuilder" where
  "extract_respondent_row clk cols ir s =
     (let index = fst ir; row = snd ir;
          respondent_id = respondent_id_format (respondent_counter s) (clk (clock_reads s));
          s1 = s\<lparr>clock_reads := clock_reads s + 1,
                 respondent_id_mapping := (respondent_id_mapping s)(index \<mapsto> respondent_id),
                 respondent_counter := respondent_counter s + 1\<rparr>;
          year_raw = safe_convert_value (row_get cols row ''YEARRAW'');
          survey_project = py_or (safe_convert_value (row_get cols row ''PROJECT_NAME'')) ''unknown'';
          respondent_properties =
            [(''unique_id'', PVStr respondent_id),
             (''original_uid'', PVStr (py_or (safe_convert_value (row_get cols row ''UID'')) respondent_id)),
             (''survey_project'', PVStr survey_project),
             (''created_at'', PVStr (py_or year_raw (str_nat (dt_year (clk (clock_reads s1)))))),
             (''row_index'', PVInt (int index))];
          s2 = (if truthy year_raw then s1 else s1\<lparr>clock_reads := clock_reads s1 + 1\<rparr>);
          respondent_entity =
            \<lparr>entity_id = respondent_id, entity_type = ''Respondent'',
             properties = respondent_properties,
             text_content = Some (''Respondent '' @ respondent_id @ '' from survey '' @ survey_project)\<rparr>
      in s2\<lparr>entities := entities s2 @ [respondent_entity]\<rparr>)"

definition extract_respondent_entities ::
  "clock \<Rightarrow> dataframe \<Rightarrow> SurveyKGBuilder \<Rightarrow> SurveyKGBuilder" where
  "extract_respondent_entities clk df s =
     fold (extract_respondent_row clk (columns df)) (iterrows df)
       (s\<lparr>respondent_id_mapping := Map.empty\<rparr>)"

subsection \<open>Response-category entities\<close>

definition collect_category_responses ::
  "ontology \<Rightarrow> string list \<Rightarrow> pyval list \<Rightarrow> string list \<Rightarrow> (string \<times> string option) list" where
  "collect_category_responses ont cols row field_set =
     fold (\<lambda>field category_responses.
             if field \<in> set cols
             then dict_set category_responses (get_descriptive_field_name ont field)
                    (safe_convert_value (row_get cols row field))
             else category_responses)
       field_set []"

definition non_null :: "(string \<times> string option) list \<Rightarrow> (string \<times> string option) list" where
  "non_null category_responses = filter (\<lambda>kv. snd kv \<noteq> None) category_responses"

text \<open>
  Both branches of the lookup in \<^verbatim>\<open>FIELD_NAME_MAPPING\<close> append the same text, so the
  summary does not depend on it.
\<close>

definition create_category_text_content ::
  "string \<Rightarrow> (string \<times> string option) list \<Rightarrow> string \<Rightarrow> string" where
  "create_category_text_content category_name responses respondent_id =
     join '' ''
       ((category_name @ '' responses for respondent '' @ respondent_id @ '':'') #
        concat (map (\<lambda>kv. case snd kv of None \<Rightarrow> [] | Some value_str \<Rightarrow> [fst kv @ '': '' @ value_str @ '','']) responses))"

fun propval_of :: "string option \<Rightarrow> propval" where
  "propval_of None = PVNone"
| "propval_of (Some v) = PVStr v"

definition response_entity_for ::
  "ontology \<Rightarrow> string \<Rightarrow> string \<Rightarrow> (string \<times> string option) list \<Rightarrow> SurveyEntity" where
  "response_entity_for ont respondent_id rel_type category_responses =
     \<lparr>entity_id = respondent_id @ ''_'' @ lower rel_type,
      entity_type = get_category_class_name ont rel_type,
      properties =
        fold (\<lambda>kv d. dict_set d (fst kv) (propval_of (snd kv))) category_responses
          [(''respondent_uid'', PVStr respondent_id),
           (''response_category'', PVStr rel_type),
           (''response_count'', PVInt (int (length (non_null category_responses))))],
      text_content =
        Some (create_category_text_content (get_category_class_name ont rel_type)
                (non_null category_responses) respondent_id)\<rparr>"

definition response_relationship_for ::
  "string \<Rightarrow> string \<Rightarrow> (string \<times> string option) list \<Rightarrow> datetime \<Rightarrow> SurveyRelationship" where
  "response_relationship_for respondent_id rel_type category_responses now =
     \<lparr>source_id = respondent_id,
      target_id = respondent_id @ ''_'' @ lower rel_type,
      relationship_type = rel_type,
      rel_properties =
        [(''respondent_uid'', PVStr respondent_id),
         (''response_count'', PVInt (int (length (non_null category_responses)))),
         (''created_at'', PVStr (isoformat now))]\<rparr>"

definition extract_response_category ::
  "ontology \<Rightarrow> clock \<Rightarrow> string list \<Rightarrow> pyval list \<Rightarrow> string \<Rightarrow> string \<times> string list \<Rightarrow>
   SurveyKGBuilder \<Rightarrow> SurveyKGBuilder" where
  "extract_response_category ont clk cols row respondent_id mapping s =
     (let rel_type = fst mapping; field_set = snd mapping;
          category_responses = collect_category_responses ont cols row field_set
      in if non_null category_responses \<noteq> []
         then s\<lparr>entities := entities s @
                   [response_entity_for ont respondent_id rel_type category_responses],
                 relationships := relationships s @
                   [response_relationship_for respondent_id rel_type category_responses
                      (clk (clock_reads s))],
                 clock_reads := clock_reads s + 1\<rparr>
         else s)"

definition extract_response_row ::
  "ontology \<Rightarrow> clock \<Rightarrow> string list \<Rightarrow> nat \<times> pyval list \<Rightarrow> SurveyKGBuilder \<Rightarrow> SurveyKGBuilder" where
  "extract_response_row ont clk cols ir s =
     (if \<not> truthy (respondent_id_mapping s (fst ir)) then s
      else fold (extract_response_category ont clk cols (snd ir)
                   (py_or (respondent_id_mapping s (fst ir)) []))
             (RELATIONSHIP_MAPPINGS ont) s)"

definition extract_response_entities ::
  "ontology \<Rightarrow> clock \<Rightarrow> dataframe \<Rightarrow> SurveyKGBuilder \<Rightarrow> SurveyKGBuilder" where
  "extract_response_entities ont clk df s =
     fold (extract_response_row ont clk (columns df)) (iterrows df) s"

subsection \<open>Question entities\<close>

definition column_values :: "dataframe \<Rightarrow> string \<Rightarrow> pyval list" where
  "column_values df column = map (\<lambda>row. row_get (columns df) row column) (rows df)"

definition question_entity_for :: "ontology \<Rightarrow> dataframe \<Rightarrow> string \<Rightarrow> SurveyEntity" where
  "question_entity_for ont df column =
     (let descriptive_name = get_descriptive_field_name ont column;
          category = get_category_for_field ont column;
          description = get_field_description ont column
      in \<lparr>entity_id = ''question_'' @ descriptive_name,
          entity_type = ''Question'',
          properties =
            [(''original_field_name'', PVStr column),
             (''descriptive_field_name'', PVStr descriptive_name),
             (''category'', PVStr category),
             (''description'', PVStr description),
             (''data_type'', PVStr (dtype df column)),
             (''unique_values'',
                PVInt (int (length (remdups (filter (\<lambda>v. \<not> pd_isna v) (column_values df column)))))),
             (''null_count'', PVInt (int (length (filter pd_isna (column_values df column)))))],
          text_content =
            Some (''Survey question '' @ descriptive_name @ '': '' @ description @ '' in '' @
                  category @ '' category'')\<rparr>)"

text \<open>\<^verbatim>\<open>column.upper() in self.ontology.get_all_survey_fields()\<close>\<close>

definition recognised :: "ontology \<Rightarrow> string \<Rightarrow> bool" where
  "recognised ont column =
     (case upper column of None \<Rightarrow> False | Some u \<Rightarrow> u \<in> set (get_all_survey_fields ont))"

definition extract_question_column ::
  "ontology \<Rightarrow> dataframe \<Rightarrow> string \<Rightarrow> string set \<times> SurveyKGBuilder \<Rightarrow> string set \<times> SurveyKGBuilder" where
  "extract_question_column ont df column ps =
     (let processed_questions = fst ps; s = snd ps
      in if recognised ont column
         then (if column \<notin> processed_questions
               then (insert column processed_questions,
                     s\<lparr>entities := entities s @ [question_entity_for ont df column]\<rparr>)
               else ps)
         else ps)"

definition extract_question_entities ::
  "ontology \<Rightarrow> dataframe \<Rightarrow> SurveyKGBuilder \<Rightarrow> SurveyKGBuilder" where
  "extract_question_entities ont df s =
     snd (fold (extract_question_column ont df) (columns df) ({}, s))"

subsection \<open>Survey metadata\<close>

text \<open>\<^verbatim>\<open>Series.unique()\<close>: the distinct values in order of first appearance.\<close>

definition unique :: "'a list \<Rightarrow> 'a list" where
  "unique xs = rev (remdups (rev xs))"

text \<open>\<^verbatim>\<open>df['PROJECT_NAME'].dropna().unique()\<close>, each value then through \<^verbatim>\<open>str\<close>.\<close>

definition project_names :: "dataframe \<Rightarrow> string list" where
  "project_names df =
     map py_str (unique (filter (\<lambda>v. \<not> pd_isna v) (column_values df ''PROJECT_NAME'')))"

text \<open>
  \<^verbatim>\<open>df[df['PROJECT_NAME'] == project_name]\<close>, with the rows' original indices. The name
  is a string, so only a string cell equals it: a numeric or boolean cell compares
  unequal. The rows are those \<^verbatim>\<open>iterrows\<close> and \<^verbatim>\<open>iloc\<close> return; they hold the same string
  cells as the table.
\<close>

definition project_rows :: "dataframe \<Rightarrow> string \<Rightarrow> (nat \<times> pyval list) list" where
  "project_rows df project_name =
     filter (\<lambda>ir. row_get (columns df) (snd ir) ''PROJECT_NAME'' = PyStr project_name) (iterrows df)"

definition calculate_data_quality_score ::
  "string list \<Rightarrow> (nat \<times> pyval list) list \<Rightarrow> propval" where
  "calculate_data_quality_score cols project_df =
     (let total_cells = length project_df * length cols;
          non_null_cells =
            sum_list (map (\<lambda>ir. length (filter (\<lambda>c. \<not> pd_isna (row_get cols (snd ir) c)) cols)) project_df)
      in if total_cells > 0 then PVPercent non_null_cells total_cells else PVPercent 0 1)"

definition safe_project_name :: "string \<Rightarrow> string" where
  "safe_project_name project_name =
     replace_char CHR ''-'' CHR ''_'' (replace_char CHR '' '' CHR ''_'' (lower project_name))"

definition survey_entity_for :: "dataframe \<Rightarrow> string \<Rightarrow> SurveyEntity" where
  "survey_entity_for df project_name =
     (let project_df = project_rows df project_name;
          year_value =
            (case project_df of
               [] \<Rightarrow> ''unknown''
             | ir # _ \<Rightarrow>
                 if ''YEARRAW'' \<in> set (columns df)
                 then (let first_year = row_get (columns df) (snd ir) ''YEARRAW''
                       in if \<not> pd_isna first_year then py_str first_year else ''unknown'')
                 else ''unknown'')
      in \<lparr>entity_id = ''survey_'' @ safe_project_name project_name,
          entity_type = ''Survey'',
          properties =
            [(''project_name'', PVStr project_name),
             (''total_respondents'', PVInt (int (length project_df))),
             (''survey_year'', PVStr year_value),
             (''completion_rate'', PVPercent (length project_df) (length (rows df))),
             (''data_quality_score'', calculate_data_quality_score (columns df) project_df)],
          text_content =
            Some (''Survey '' @ project_name @ '' with '' @ str_nat (length project_df) @
                  '' respondents from '' @ year_value)\<rparr>)"

definition has_respondent_for :: "string \<Rightarrow> string \<Rightarrow> SurveyRelationship" where
  "has_respondent_for project_name respondent_id =
     \<lparr>source_id = ''survey_'' @ safe_project_name project_name,
      target_id = respondent_id,
      relationship_type = ''HAS_RESPONDENT'',
      rel_properties = [(''survey_project'', PVStr project_name)]\<rparr>"

definition link_survey_respondent ::
  "string \<Rightarrow> nat \<times> pyval list \<Rightarrow> SurveyKGBuilder \<Rightarrow> SurveyKGBuilder" where
  "link_survey_respondent project_name ir s =
     (if truthy (respondent_id_mapping s (fst ir))
      then s\<lparr>relationships := relationships s @
                [has_respondent_for project_name (py_or (respondent_id_mapping s (fst ir)) [])]\<rparr>
      else s)"

definition extract_survey_project :: "dataframe \<Rightarrow> string \<Rightarrow> SurveyKGBuilder \<Rightarrow> SurveyKGBuilder" where
  "extract_survey_project df project_name s =
     fold (link_survey_respondent project_name) (project_rows df project_name)
       (s\<lparr>entities := entities s @ [survey_entity_for df project_name]\<rparr>)"

definition extract_survey_metadata :: "dataframe \<Rightarrow> SurveyKGBuilder \<Rightarrow> SurveyKGBuilder" where
  "extract_survey_metadata df s =
     (if ''PROJECT_NAME'' \<in> set (columns df)
      then fold (extract_survey_project df) (project_names df) s
      else s)"

subsection \<open>Validation and the complete run\<close>

record validation_result =
  total_relationships :: nat
  valid_relationships :: nat
  orphaned_relationships :: "string list"
  validation_passed :: bool

definition validate_step ::
  "string set \<Rightarrow> SurveyRelationship \<Rightarrow> string list \<times> SurveyRelationship list \<Rightarrow>
   string list \<times> SurveyRelationship list" where
  "validate_step entity_ids rel acc =
     (let orphaned = fst acc; valid = snd acc
      in if source_id rel \<notin> entity_ids
         then (orphaned @ [''Missing source: '' @ source_id rel @ '' for relationship '' @
                           relationship_type rel], valid)
         else if target_id rel \<notin> entity_ids
         then (orphaned @ [''Missing target: '' @ target_id rel @ '' for relationship '' @
                           relationship_type rel], valid)
         else (orphaned, valid @ [rel]))"

text \<open>The method reads the builder and returns a report; the builder it leaves is returned too.\<close>

definition validate_entity_relationships ::
  "SurveyKGBuilder \<Rightarrow> validation_result \<times> SurveyKGBuilder" where
  "validate_entity_relationships s =
     (let entity_ids = set (map entity_id (entities s));
          acc = fold (validate_step entity_ids) (relationships s) ([], [])
      in (\<lparr>total_relationships = length (relationships s),
           valid_relationships = length (snd acc),
           orphaned_relationships = fst acc,
           validation_passed = (length (fst acc) = 0)\<rparr>, s))"

datatype error = ReadError

text \<open>
  \<^verbatim>\<open>load_and_validate_data\<close> reads the table or raises; its outcome \<open>src\<close> is an input of
  the run. Validation of the result only logs.
\<close>

definition build_knowledge_graph ::
  "ontology \<Rightarrow> clock \<Rightarrow> error + dataframe \<Rightarrow> SurveyKGBuilder \<Rightarrow>
   (error + SurveyEntity list \<times> SurveyRelationship list) \<times> SurveyKGBuilder" where
  "build_knowledge_graph ont clk src s =
     (let s0 = s\<lparr>respondent_counter := 1\<rparr>
      in case src of
           Inl e \<Rightarrow> (Inl e, s0)
         | Inr df \<Rightarrow>
             (let s1 = s0\<lparr>respondent_id_mapping := Map.empty\<rparr>;
                  s2 = extract_respondent_entities clk df s1;
                  s3 = extract_response_entities ont clk df s2;
                  s4 = extract_question_entities ont df s3;
                  s5 = extract_survey_metadata df s4;
                  s6 = snd (validate_entity_relationships s5)
              in (Inr (entities s6, relationships s6), s6)))"

section \<open>The batch graph loader (neo4j\_graph\_builder.py)\<close>

text \<open>
  The graph store is an external service. It is modelled by what the loader's queries do
  to it when no other client writes: its nodes, its relationships, its uniqueness
  constraints, and the queries the session has run. A node carries its label and properties; matching is by
  the \<open>entity_id\<close> property, as in the loader's queries.
\<close>

record entity_data =
  ed_entity_id :: string
  ed_properties :: "(string \<times> propval) list"
  ed_text_content :: "string option"

record rel_data =
  rd_source_id :: string
  rd_target_id :: string
  rd_properties :: "(string \<times> propval) list"

datatype query =
    DeleteRelationships nat
  | DeleteNodes nat
  | CreateConstraint string string
  | CreateIndex string string
  | CreateNodes string "entity_data list"
  | CreateRelationships string "rel_data list"
  | CheckRelationship string string

record node =
  node_label :: string
  node_properties :: "(string \<times> propval) list"

record edge =
  edge_type :: string
  edge_source :: string
  edge_target :: string
  edge_properties :: "(string \<times> propval) list"

record graph_store =
  nodes :: "node list"
  edges :: "edge list"
  queries :: "query list"
  unique_constraints :: "(string \<times> string) list"

subsection \<open>Clearing the store\<close>

text \<open>
  \<^verbatim>\<open>MATCH ()-[r]->() WITH r LIMIT n DELETE r RETURN count(r)\<close> and
  \<^verbatim>\<open>MATCH (n) WITH n LIMIT n DELETE n RETURN count(n)\<close>: each deletes at most \<open>n\<close> items
  and returns how many it deleted.
\<close>

definition run_delete_relationships :: "nat \<Rightarrow> graph_store \<Rightarrow> nat \<times> graph_store" where
  "run_delete_relationships limit st =
     (min limit (length (edges st)),
      st\<lparr>edges := drop limit (edges st), queries := queries st @ [DeleteRelationships limit]\<rparr>)"

definition run_delete_nodes :: "nat \<Rightarrow> graph_store \<Rightarrow> nat \<times> graph_store" where
  "run_delete_nodes limit st =
     (min limit (length (nodes st)),
      st\<lparr>nodes := drop limit (nodes st), queries := queries st @ [DeleteNodes limit]\<rparr>)"

function delete_relationships_loop :: "nat \<Rightarrow> graph_store \<Rightarrow> graph_store" where
  "delete_relationships_loop batch_size st =
     (if fst (run_delete_relationships batch_size st) = 0
      then snd (run_delete_relationships batch_size st)
      else delete_relationships_loop batch_size (snd (run_delete_relationships batch_size st)))"
  by pat_completeness auto
termination
  by (relation "measure (\<lambda>(batch_size, st). length (edges st))")
    (auto simp add: run_delete_relationships_def)

function delete_nodes_loop :: "nat \<Rightarrow> graph_store \<Rightarrow> graph_store" where
  "delete_nodes_loop batch_size st =
     (if fst (run_delete_nodes batch_size st) = 0
      then snd (run_delete_nodes batch_size st)
      else delete_nodes_loop batch_size (snd (run_delete_nodes batch_size st)))"
  by pat_completeness auto
termination
  by (relation "measure (\<lambda>(batch_size, st). length (nodes st))")
    (auto simp add: run_delete_nodes_def)

declare delete_relationships_loop.simps [simp del]
declare delete_nodes_loop.simps [simp del]

definition clear_database :: "bool \<Rightarrow> graph_store \<Rightarrow> graph_store" where
  "clear_database confirm st =
     (if \<not> confirm then st
      else (let batch_size = 10000
            in delete_nodes_loop batch_size (delete_relationships_loop batch_size st)))"

subsection \<open>Loading entities and relationships in batches\<close>

text \<open>
  Grouping by type with a dictionary of lists: a new type is added at the end, an item of
  a known type is appended to that type's list.
\<close>

definition group_add :: "('a \<Rightarrow> string) \<Rightarrow> 'a \<Rightarrow> (string \<times> 'a list) list \<Rightarrow> (string \<times> 'a list) list" where
  "group_add key x groups =
     (case map_of groups (key x) of
        None \<Rightarrow> groups @ [(key x, [x])]
      | Some xs \<Rightarrow> dict_set groups (key x) (xs @ [x]))"

definition group_by_type :: "('a \<Rightarrow> string) \<Rightarrow> 'a list \<Rightarrow> (string \<times> 'a list) list" where
  "group_by_type key batch = fold (group_add key) batch []"

definition not_none_properties :: "(string \<times> propval) list \<Rightarrow> (string \<times> propval) list" where
  "not_none_properties props =
     fold (\<lambda>kv d. if snd kv \<noteq> PVNone then dict_set d (fst kv) (snd kv) else d) props []"

definition entity_data_of :: "SurveyEntity \<Rightarrow> entity_data" where
  "entity_data_of entity =
     \<lparr>ed_entity_id = entity_id entity,
      ed_properties = not_none_properties (properties entity),
      ed_text_content = text_content entity\<rparr>"

definition rel_data_of :: "SurveyRelationship \<Rightarrow> rel_data" where
  "rel_data_of rel =
     \<lparr>rd_source_id = source_id rel,
      rd_target_id = target_id rel,
      rd_properties = not_none_properties (rel_properties rel)\<rparr>"

text \<open>
  \<^verbatim>\<open>CREATE (n:Type) SET n.entity_id = ... SET n += properties SET n.text_content = ...\<close>:
  one node per submitted entity; setting a property to null removes it.
\<close>

definition node_of :: "string \<Rightarrow> entity_data \<Rightarrow> node" where
  "node_of label d =
     \<lparr>node_label = label,
      node_properties =
        (let props = fold (\<lambda>kv p. dict_set p (fst kv) (snd kv)) (ed_properties d)
                       [(''entity_id'', PVStr (ed_entity_id d))]
         in case ed_text_content d of
              None \<Rightarrow> filter (\<lambda>kv. fst kv \<noteq> ''text_content'') props
            | Some t \<Rightarrow> dict_set props ''text_content'' (PVStr t))\<rparr>"

text \<open>
  A uniqueness constraint \<open>(label, property)\<close> of the store holds when no two nodes of
  that label have the same value of that property; nodes without the property are not
  concerned.
\<close>

definition constraint_values :: "string \<times> string \<Rightarrow> node list \<Rightarrow> propval list" where
  "constraint_values c ns =
     concat (map (\<lambda>n. if node_label n = fst c
                       then (case map_of (node_properties n) (snd c) of
                               None \<Rightarrow> []
                             | Some v \<Rightarrow> if v = PVNone then [] else [v])
                       else []) ns)"

definition satisfies_constraints :: "(string \<times> string) list \<Rightarrow> node list \<Rightarrow> bool" where
  "satisfies_constraints cs ns = list_all (\<lambda>c. distinct (constraint_values c ns)) cs"

datatype loader_error = ValueError | StoreError

text \<open>
  A query can fail for a reason outside the store's contents (the service is unavailable,
  the connection drops): \<open>fails\<close> says on which queries that happens. A query that
  creates nodes fails as well when the nodes would break a uniqueness constraint; a failed
  query changes nothing in the store. \<^verbatim>\<open>session.run\<close> then raises.
\<close>

definition never_fails :: "query \<Rightarrow> bool" where
  "never_fails q = False"

definition run_create_nodes ::
  "(query \<Rightarrow> bool) \<Rightarrow> string \<Rightarrow> entity_data list \<Rightarrow> graph_store \<Rightarrow>
   (loader_error + nat) \<times> graph_store" where
  "run_create_nodes fails label ds st =
     (if fails (CreateNodes label ds) \<or>
         \<not> satisfies_constraints (unique_constraints st) (nodes st @ map (node_of label) ds)
      then (Inl StoreError, st\<lparr>queries := queries st @ [CreateNodes label ds]\<rparr>)
      else (Inr (length ds),
            st\<lparr>nodes := nodes st @ map (node_of label) ds,
               queries := queries st @ [CreateNodes label ds]\<rparr>))"

text \<open>
  \<^verbatim>\<open>MATCH (source {entity_id: ...}) MATCH (target {entity_id: ...}) CREATE (source)-[r]->(target)\<close>:
  one relationship for every pair of a matching source node and a matching target node,
  none when an endpoint is missing.
\<close>

definition matching_nodes :: "graph_store \<Rightarrow> string \<Rightarrow> node list" where
  "matching_nodes st ident =
     filter (\<lambda>n. map_of (node_properties n) ''entity_id'' = Some (PVStr ident)) (nodes st)"

definition edges_of :: "graph_store \<Rightarrow> string \<Rightarrow> rel_data \<Rightarrow> edge list" where
  "edges_of st rel_type d =
     replicate (length (matching_nodes st (rd_source_id d)) * length (matching_nodes st (rd_target_id d)))
       \<lparr>edge_type = rel_type, edge_source = rd_source_id d, edge_target = rd_target_id d,
        edge_properties = rd_properties d\<rparr>"

definition run_create_relationships ::
  "(query \<Rightarrow> bool) \<Rightarrow> string \<Rightarrow> rel_data list \<Rightarrow> graph_store \<Rightarrow>
   (loader_error + nat) \<times> graph_store" where
  "run_create_relationships fails rel_type ds st =
     (if fails (CreateRelationships rel_type ds)
      then (Inl StoreError, st\<lparr>queries := queries st @ [CreateRelationships rel_type ds]\<rparr>)
      else (Inr (length (concat (map (edges_of st rel_type) ds))),
            st\<lparr>edges := edges st @ concat (map (edges_of st rel_type) ds),
               queries := queries st @ [CreateRelationships rel_type ds]\<rparr>))"

text \<open>
  The probe \<^verbatim>\<open>MATCH (source {entity_id: ...}) MATCH (target {entity_id: ...}) RETURN count(*)\<close>.
\<close>

definition run_check_relationship ::
  "(query \<Rightarrow> bool) \<Rightarrow> string \<Rightarrow> string \<Rightarrow> graph_store \<Rightarrow> (loader_error + nat) \<times> graph_store" where
  "run_check_relationship fails source target st =
     (if fails (CheckRelationship source target) then Inl StoreError
      else Inr (length (matching_nodes st source) * length (matching_nodes st target)),
      st\<lparr>queries := queries st @ [CheckRelationship source target]\<rparr>)"

text \<open>
  A loop whose body can raise: the first error ends the loop and is the outcome, with the
  store as it is at that point.
\<close>

fun for_each ::
  "('a \<Rightarrow> graph_store \<Rightarrow> loader_error option \<times> graph_store) \<Rightarrow> 'a list \<Rightarrow> graph_store \<Rightarrow>
   loader_error option \<times> graph_store" where
  "for_each body [] st = (None, st)"
| "for_each body (x # xs) st =
     (case body x st of
        (Some e, st') \<Rightarrow> (Some e, st')
      | (None, st') \<Rightarrow> for_each body xs st')"

text \<open>Creating the entities of one type: nothing catches a failure of the query.\<close>

definition create_entity_group ::
  "(query \<Rightarrow> bool) \<Rightarrow> string \<times> SurveyEntity list \<Rightarrow> graph_store \<Rightarrow>
   loader_error option \<times> graph_store" where
  "create_entity_group fails g st =
     (case run_create_nodes fails (fst g) (map entity_data_of (snd g)) st of
        (Inl e, st') \<Rightarrow> (Some e, st')
      | (Inr created_count, st') \<Rightarrow> (None, st'))"

definition create_entity_batch ::
  "(query \<Rightarrow> bool) \<Rightarrow> SurveyEntity list \<Rightarrow> graph_store \<Rightarrow> loader_error option \<times> graph_store" where
  "create_entity_batch fails entity_batch st =
     for_each (create_entity_group fails) (group_by_type entity_type entity_batch) st"

text \<open>
  Creating the relationships of one type: a failure of the query is caught and logged,
  and each relationship of the group is then probed, a failing probe being caught too.
  A count of created relationships below the number submitted is only logged.
\<close>

definition create_relationship_group ::
  "(query \<Rightarrow> bool) \<Rightarrow> string \<times> SurveyRelationship list \<Rightarrow> graph_store \<Rightarrow> graph_store" where
  "create_relationship_group fails g st =
     (case run_create_relationships fails (fst g) (map rel_data_of (snd g)) st of
        (Inr created_count, st') \<Rightarrow> st'
      | (Inl e, st') \<Rightarrow>
          fold (\<lambda>rel. \<lambda>t. snd (run_check_relationship fails (source_id rel) (target_id rel) t))
            (snd g) st')"

definition create_relationship_batch ::
  "(query \<Rightarrow> bool) \<Rightarrow> SurveyRelationship list \<Rightarrow> graph_store \<Rightarrow> graph_store" where
  "create_relationship_batch fails rel_batch st =
     fold (create_relationship_group fails) (group_by_type relationship_type rel_batch) st"

text \<open>\<^verbatim>\<open>[xs[i:i + step] for i in range(start, len(xs), step)]\<close> for a positive step.\<close>

function batches_from :: "nat \<Rightarrow> nat \<Rightarrow> 'a list \<Rightarrow> 'a list list" where
  "batches_from step i xs =
     (if step = 0 \<or> length xs \<le> i then []
      else take step (drop i xs) # batches_from step (i + step) xs)"
  by pat_completeness auto
termination
  by (relation "measure (\<lambda>(step, i, xs). length xs - i)") auto

declare batches_from.simps [simp del]

text \<open>
  The batch size is an optional integer; \<^verbatim>\<open>range\<close> raises on step 0 and is empty for a
  negative step.
\<close>

definition BATCH_SIZE :: int where
  "BATCH_SIZE = 1000"

definition RELATIONSHIP_BATCH_SIZE :: int where
  "RELATIONSHIP_BATCH_SIZE = 500"

definition batches_of :: "int \<Rightarrow> 'a list \<Rightarrow> loader_error + 'a list list" where
  "batches_of batch_size xs =
     (if batch_size = 0 then Inl ValueError
      else if batch_size < 0 then Inr []
      else Inr (batches_from (nat batch_size) 0 xs))"

text \<open>
  The outcome of a load is the error that ended it, if any, and the store it leaves:
  batches written before a failure stay written.
\<close>

definition create_entities_batch ::
  "(query \<Rightarrow> bool) \<Rightarrow> SurveyEntity list \<Rightarrow> int option \<Rightarrow> graph_store \<Rightarrow>
   loader_error option \<times> graph_store" where
  "create_entities_batch fails ents batch_size st =
     (case batches_of (case batch_size of None \<Rightarrow> BATCH_SIZE | Some b \<Rightarrow> b) ents of
        Inl e \<Rightarrow> (Some e, st)
      | Inr bs \<Rightarrow> for_each (create_entity_batch fails) bs st)"

definition create_relationships_batch ::
  "(query \<Rightarrow> bool) \<Rightarrow> SurveyRelationship list \<Rightarrow> int option \<Rightarrow> graph_store \<Rightarrow>
   loader_error option \<times> graph_store" where
  "create_relationships_batch fails rels batch_size st =
     (case batches_of (case batch_size of None \<Rightarrow> RELATIONSHIP_BATCH_SIZE | Some b \<Rightarrow> b) rels of
        Inl e \<Rightarrow> (Some e, st)
      | Inr bs \<Rightarrow> (None, fold (create_relationship_batch fails) bs st))"

text \<open>
  \<^verbatim>\<open>create_constraints_and_indexes\<close>: each statement is tried and a failure is caught. A
  uniqueness constraint is created if it does not exist yet, unless the nodes already in
  the store break it. Indexes do not change what the store holds.
\<close>

definition run_create_constraint ::
  "(query \<Rightarrow> bool) \<Rightarrow> string \<Rightarrow> string \<Rightarrow> graph_store \<Rightarrow> graph_store" where
  "run_create_constraint fails label property st =
     (if fails (CreateConstraint label property) \<or>
         (label, property) \<in> set (unique_constraints st) \<or>
         \<not> satisfies_constraints [(label, property)] (nodes st)
      then st\<lparr>queries := queries st @ [CreateConstraint label property]\<rparr>
      else st\<lparr>queries := queries st @ [CreateConstraint label property],
              unique_constraints := unique_constraints st @ [(label, property)]\<rparr>)"

definition run_create_index :: "string \<Rightarrow> string \<Rightarrow> graph_store \<Rightarrow> graph_store" where
  "run_create_index label property st = st\<lparr>queries := queries st @ [CreateIndex label property]\<rparr>"

definition create_constraints_and_indexes :: "(query \<Rightarrow> bool) \<Rightarrow> graph_store \<Rightarrow> graph_store" where
  "create_constraints_and_indexes fails st =
     run_create_index ''Respondent'' ''entity_id''
       (run_create_index ''Respondent'' ''original_uid''
          (run_create_index ''Respondent'' ''survey_project''
             (run_create_constraint fails ''Survey'' ''project_name''
                (run_create_constraint fails ''Respondent'' ''unique_id'' st))))"

section \<open>Notions of the specification\<close>

text \<open>
  The inputs the specification calls absent: null, the empty string, a whitespace-only
  string, or a string form that is \<open>nan\<close>, \<open>none\<close> or \<open>null\<close> after
  trimming, whatever the case of its letters.
\<close>

definition absent_equivalent :: "pyval \<Rightarrow> bool" where
  "absent_equivalent v =
     (v = PyNone \<or> v = NaN \<or> py_str v = [] \<or> list_all isspace (py_str v) \<or>
      lower (strip (py_str v)) \<in> set [''nan'', ''none'', ''null''])"


text \<open>
  The properties the specification gives a respondent entity: the generated identifier,
  the original identifier with the generated one as fallback, the project label with
  \<open>unknown\<close> as fallback, the year with the current year as fallback, and the row index.
  A value is taken from the cell of the row that stands under the column's name, trimmed,
  unless that cell is absent-equivalent or the row has no such column.
\<close>

fun cell_at :: "string list \<Rightarrow> pyval list \<Rightarrow> string \<Rightarrow> pyval" where
  "cell_at (c # cs) (v # vs) column = (if c = column then v else cell_at cs vs column)"
| "cell_at _ _ column = PyNone"

definition present_value :: "pyval \<Rightarrow> string option" where
  "present_value v = (if absent_equivalent v then None else Some (strip (py_str v)))"

definition respondent_properties_of ::
  "string list \<Rightarrow> pyval list \<Rightarrow> nat \<Rightarrow> string \<Rightarrow> string \<Rightarrow> (string \<times> propval) list" where
  "respondent_properties_of cols row index generated_id current_year =
     [(''unique_id'', PVStr generated_id),
      (''original_uid'',
         PVStr (case present_value (cell_at cols row ''UID'') of
                  None \<Rightarrow> generated_id | Some uid \<Rightarrow> uid)),
      (''survey_project'',
         PVStr (case present_value (cell_at cols row ''PROJECT_NAME'') of
                  None \<Rightarrow> ''unknown'' | Some project \<Rightarrow> project)),
      (''created_at'',
         PVStr (case present_value (cell_at cols row ''YEARRAW'') of
                  None \<Rightarrow> current_year | Some y \<Rightarrow> y)),
      (''row_index'', PVInt (int index))]"

definition is_respondent_entity_of ::
  "clock \<Rightarrow> string list \<Rightarrow> nat \<Rightarrow> pyval list \<Rightarrow> nat \<Rightarrow> SurveyEntity \<Rightarrow> bool" where
  "is_respondent_entity_of clk cols index row counter e =
     (entity_type e = ''Respondent'' \<and>
      (\<exists>k. entity_id e = respondent_id_format counter (clk k)) \<and>
      (\<exists>k. properties e =
             respondent_properties_of cols row index (entity_id e) (str_nat (dt_year (clk k)))))"

section \<open>Concrete inputs\<close>

text \<open>
  The scenario of the specification: three rows with columns \<open>UID\<close>,
  \<open>PROJECT_NAME\<close>, \<open>YEARRAW\<close> and \<open>Q1\<close>, the second row's \<open>Q1\<close> blank, and an
  ontology that puts \<open>Q1\<close> in the category \<open>OPINIONS\<close>.
\<close>

definition example_ontology :: ontology where
  "example_ontology =
     \<lparr>RELATIONSHIP_MAPPINGS = [(''OPINIONS'', [''Q1''])],
      FIELD_NAME_MAPPING = [(''Q1'', ''opinion_one'')],
      get_descriptive_field_name = (\<lambda>f. if f = ''Q1'' then ''opinion_one'' else f),
      get_category_class_name = (\<lambda>r. ''Opinions''),
      get_category_for_field = (\<lambda>f. ''Opinions''),
      get_field_description = (\<lambda>f. ''First opinion''),
      get_all_survey_fields = [''Q1'']\<rparr>"

definition example_table :: dataframe where
  "example_table =
     \<lparr>columns = [''UID'', ''PROJECT_NAME'', ''YEARRAW'', ''Q1''],
      rows = [[PyStr ''u1'', PyStr ''Poll A'', PyInt 2020, PyStr ''yes''],
              [PyStr ''u2'', PyStr ''Poll A'', PyInt 2020, NaN],
              [NaN, PyStr ''Poll A'', PyInt 2019, PyStr '' no '']],
      dtype = (\<lambda>c. if c = ''YEARRAW'' then ''int64'' else ''object'')\<rparr>"

definition example_time :: datetime where
  "example_time =
     \<lparr>dt_year = 2026, dt_month = 11, dt_day = 4, dt_hour = 2, dt_minute = 8, dt_second = 9,
      dt_microsecond = 5\<rparr>"


text \<open>A clock that stands still, as within one second.\<close>

definition example_clock :: clock where
  "example_clock = (\<lambda>k. example_time)"

text \<open>
  Referential closure of what a run adds to a builder \<open>base\<close>: the state extends the
  entities and relationships of \<open>base\<close>, every added relationship has both endpoints
  among the identifiers of the added entities, and so has every mapped respondent
  identifier.
\<close>

definition new_ids :: "SurveyKGBuilder \<Rightarrow> SurveyKGBuilder \<Rightarrow> string set" where
  "new_ids base s = entity_id ` set (drop (length (entities base)) (entities s))"

definition closed_from :: "SurveyKGBuilder \<Rightarrow> SurveyKGBuilder \<Rightarrow> bool" where
  "closed_from base s =
     (length (entities base) \<le> length (entities s) \<and>
      length (relationships base) \<le> length (relationships s) \<and>
      take (length (entities base)) (entities s) = entities base \<and>
      take (length (relationships base)) (relationships s) = relationships base \<and>
      (\<forall>rel \<in> set (drop (length (relationships base)) (relationships s)).
          source_id rel \<in> new_ids base s \<and> target_id rel \<in> new_ids base s) \<and>
      (\<forall>i rid. respondent_id_mapping s i = Some rid \<longrightarrow> rid \<in> new_ids base s))"

text \<open>
  The number of delete queries that empty a collection of \<open>n\<close> items in batches of
  \<open>b\<close>: one per batch, and a last one that finds nothing left.
\<close>

definition delete_query_count :: "nat \<Rightarrow> nat \<Rightarrow> nat" where
  "delete_query_count b n = n div b + (if n mod b = 0 then 1 else 2)"

text \<open>
  What a session has been asked to create, read off the queries it has run: every
  submitted entity with its label, every submitted relationship with its type.
\<close>

fun submitted_entities_of :: "query \<Rightarrow> (string \<times> entity_data) list" where
  "submitted_entities_of (CreateNodes label ds) = map (Pair label) ds"
| "submitted_entities_of _ = []"

fun submitted_relationships_of :: "query \<Rightarrow> (string \<times> rel_data) list" where
  "submitted_relationships_of (CreateRelationships rel_type ds) = map (Pair rel_type) ds"
| "submitted_relationships_of _ = []"

definition submitted_entities :: "graph_store \<Rightarrow> (string \<times> entity_data) list" where
  "submitted_entities st = concat (map submitted_entities_of (queries st))"

definition submitted_relationships :: "graph_store \<Rightarrow> (string \<times> rel_data) list" where
  "submitted_relationships st = concat (map submitted_relationships_of (queries st))"

text \<open>The node an entity becomes, and the relationships a relationship becomes in a store.\<close>

definition node_of_entity :: "SurveyEntity \<Rightarrow> node" where
  "node_of_entity e = node_of (entity_type e) (entity_data_of e)"

definition edges_of_relationship :: "graph_store \<Rightarrow> SurveyRelationship \<Rightarrow> edge list" where
  "edges_of_relationship st rel = edges_of st (relationship_type rel) (rel_data_of rel)"

definition tagged :: "(string \<times> 'a list) list \<Rightarrow> (string \<times> 'a) list" where
  "tagged groups = concat (map (\<lambda>g. map (Pair (fst g)) (snd g)) groups)"

text \<open>A store that holds nothing, and a small graph to load into it.\<close>

definition empty_store :: graph_store where
  "empty_store = \<lparr>nodes = [], edges = [], queries = [], unique_constraints = []\<rparr>"

definition example_entities :: "SurveyEntity list" where
  "example_entities =
     [\<lparr>entity_id = ''r1'', entity_type = ''Respondent'',
       properties = [(''unique_id'', PVStr ''r1''), (''row_index'', PVInt 0)],
       text_content = Some ''Respondent r1''\<rparr>,
      \<lparr>entity_id = ''survey_a'', entity_type = ''Survey'',
       properties = [(''project_name'', PVStr ''a''), (''survey_year'', PVNone)],
       text_content = None\<rparr>,
      \<lparr>entity_id = ''r2'', entity_type = ''Respondent'',
       properties = [(''unique_id'', PVStr ''r2''), (''row_index'', PVInt 1)],
       text_content = Some ''Respondent r2''\<rparr>]"

definition example_relationships :: "SurveyRelationship list" where
  "example_relationships =
     [\<lparr>source_id = ''survey_a'', target_id = ''r1'', relationship_type = ''HAS_RESPONDENT'',
       rel_properties = []\<rparr>,
      \<lparr>source_id = ''survey_a'', target_id = ''r2'', relationship_type = ''HAS_RESPONDENT'',
       rel_properties = []\<rparr>]"

text \<open>Reading a string of decimal digits back as a number, and the digit characters.\<close>

definition digit_value :: "char \<Rightarrow> nat" where
  "digit_value c = (of_char c :: nat) - 48"

definition nat_of_str :: "string \<Rightarrow> nat" where
  "nat_of_str s = foldl (\<lambda>a c. 10 * a + digit_value c) 0 s"

definition isdigit :: "char \<Rightarrow> bool" where
  "isdigit c = (c \<in> set ''0123456789'')"

text \<open>
  The store after the loader has set up its schema, two respondent entities that carry
  the same \<open>unique_id\<close> (as the entities of two runs within one second do), and the store
  after the small graph's entities have been loaded.
\<close>

definition constrained_store :: graph_store where
  "constrained_store = create_constraints_and_indexes never_fails empty_store"

definition duplicate_respondents :: "SurveyEntity list" where
  "duplicate_respondents =
     [\<lparr>entity_id = ''00000120261104020809'', entity_type = ''Respondent'',
       properties = [(''unique_id'', PVStr ''00000120261104020809''), (''row_index'', PVInt 0)],
       text_content = Some ''Respondent 00000120261104020809 from survey unknown''\<rparr>,
      \<lparr>entity_id = ''00000120261104020809'', entity_type = ''Respondent'',
       properties = [(''unique_id'', PVStr ''00000120261104020809''), (''row_index'', PVInt 0)],
       text_content = Some ''Respondent 00000120261104020809 from survey unknown''\<rparr>]"

definition loaded_store :: graph_store where
  "loaded_store = snd (create_entities_batch never_fails example_entities (Some 2) constrained_store)"

text \<open>An ontology without categories or fields, and a table of one row.\<close>

definition empty_ontology :: ontology where
  "empty_ontology =
     \<lparr>RELATIONSHIP_MAPPINGS = [], FIELD_NAME_MAPPING = [],
      get_descriptive_field_name = (\<lambda>f. f),
      get_category_class_name = (\<lambda>r. r),
      get_category_for_field = (\<lambda>f. ''Unknown''),
      get_field_description = (\<lambda>f. f),
      get_all_survey_fields = []\<rparr>"

definition one_row_table :: dataframe where
  "one_row_table =
     \<lparr>columns = [''UID''], rows = [[PyStr ''u1'']], dtype = (\<lambda>c. ''object'')\<rparr>"

section \<open>Properties of the value accessor\<close>

lemma strip_Nil_iff: "strip s = [] \<longleftrightarrow> list_all isspace s"
proof
  assume "strip s = []"
  then have "dropWhile isspace (rev (dropWhile isspace s)) = []"
    by (simp add: strip_def)
  then have a: "\<forall>c \<in> set (dropWhile isspace s). isspace c"
    by (simp add: dropWhile_eq_Nil_conv)
  show "list_all isspace s"
  proof (cases "dropWhile isspace s")
    case Nil
    then have "\<forall>c \<in> set s. isspace c" by (simp add: dropWhile_eq_Nil_conv)
    then show ?thesis by (simp add: list_all_iff)
  next
    case (Cons c cs)
    then have "\<not> isspace c" using hd_dropWhile [of isspace s] by simp
    moreover have "isspace c" using a Cons by simp
    ultimately show ?thesis by simp
  qed
next
  assume "list_all isspace s"
  then have "\<forall>c \<in> set s. isspace c" by (simp add: list_all_iff)
  then have d: "dropWhile isspace s = []" by (simp add: dropWhile_eq_Nil_conv)
  show "strip s = []" unfolding strip_def d by simp
qed

text \<open>
  C3: the value accessor returns \<^verbatim>\<open>None\<close> on every absent-equivalent input, as it does on
  a null input, and the trimmed string form on every other input.
\<close>

theorem safe_convert_value_absent:
  "(absent_equivalent v \<longrightarrow>
      safe_convert_value v = None \<and> safe_convert_value v = safe_convert_value PyNone) \<and>
   (\<not> absent_equivalent v \<longrightarrow> safe_convert_value v = Some (strip (py_str v)))"
proof (cases "v = PyNone \<or> v = NaN")
  case True
  then show ?thesis by (auto simp add: absent_equivalent_def safe_convert_value_def pd_isna_def)
next
  case False
  have "py_str v = [] \<Longrightarrow> list_all isspace (py_str v)" by simp
  then have "absent_equivalent v \<longleftrightarrow>
      strip (py_str v) = [] \<or> lower (strip (py_str v)) \<in> set [''nan'', ''none'', ''null'']"
    using False by (auto simp add: absent_equivalent_def strip_Nil_iff)
  then show ?thesis
    using False by (simp add: safe_convert_value_def pd_isna_def Let_def)
qed

theorem safe_convert_value_absent_witness:
  "absent_equivalent (PyStr '' NuLL '') \<and> safe_convert_value (PyStr '' NuLL '') = None \<and>
   safe_convert_value (PyStr '' NuLL '') = safe_convert_value PyNone \<and>
   \<not> absent_equivalent (PyStr '' x y '') \<and> safe_convert_value (PyStr '' x y '') = Some ''x y''"
  using safe_convert_value_absent [of "PyStr '' NuLL ''"]
    safe_convert_value_absent [of "PyStr '' x y ''"]
  by (simp add: absent_equivalent_def safe_convert_value_def strip_def isspace_def lower_def
      lower_char_def isupper_def)


section \<open>The relationship integrity validator\<close>

lemma validate_step_lengths:
  "length (fst (validate_step ids rel acc)) + length (snd (validate_step ids rel acc)) =
   Suc (length (fst acc) + length (snd acc))"
  by (simp add: validate_step_def Let_def)

lemma validate_step_orphaned:
  "length (fst (validate_step ids rel acc)) =
   length (fst acc) + (if source_id rel \<in> ids \<and> target_id rel \<in> ids then 0 else 1)"
  by (simp add: validate_step_def Let_def)

lemma fold_validate_step_lengths:
  "length (fst (fold (validate_step ids) rels acc)) + length (snd (fold (validate_step ids) rels acc)) =
   length (fst acc) + length (snd acc) + length rels"
proof (induction rels arbitrary: acc)
  case Nil
  show ?case by simp
next
  case (Cons rel rels)
  show ?case
    using Cons.IH [of "validate_step ids rel acc"] validate_step_lengths [of ids rel acc]
    by simp
qed

lemma fold_validate_step_orphaned:
  "length (fst (fold (validate_step ids) rels acc)) =
   length (fst acc) + length (filter (\<lambda>rel. \<not> (source_id rel \<in> ids \<and> target_id rel \<in> ids)) rels)"
proof (induction rels arbitrary: acc)
  case Nil
  show ?case by simp
next
  case (Cons rel rels)
  show ?case
    using Cons.IH [of "validate_step ids rel acc"] validate_step_orphaned [of ids rel acc]
    by simp
qed

text \<open>
  C5: the report counts every input relationship, the valid and the orphaned ones add up
  to the total, validation passes exactly when both endpoints of every relationship are
  entity identifiers, and the builder is left as it was.
\<close>

theorem validate_entity_relationships_report:
  "total_relationships (fst (validate_entity_relationships s)) = length (relationships s) \<and>
   valid_relationships (fst (validate_entity_relationships s)) +
     length (orphaned_relationships (fst (validate_entity_relationships s))) =
     total_relationships (fst (validate_entity_relationships s)) \<and>
   (validation_passed (fst (validate_entity_relationships s)) \<longleftrightarrow>
      (\<forall>rel \<in> set (relationships s).
          source_id rel \<in> entity_id ` set (entities s) \<and>
          target_id rel \<in> entity_id ` set (entities s))) \<and>
   snd (validate_entity_relationships s) = s"
proof -
  let ?ids = "set (map entity_id (entities s))"
  let ?acc = "fold (validate_step ?ids) (relationships s) ([], [])"
  have sum: "length (fst ?acc) + length (snd ?acc) = length (relationships s)"
    using fold_validate_step_lengths [of ?ids "relationships s" "([], [])"] by simp
  have orph: "length (fst ?acc) =
      length (filter (\<lambda>rel. \<not> (source_id rel \<in> ?ids \<and> target_id rel \<in> ?ids)) (relationships s))"
    using fold_validate_step_orphaned [of ?ids "relationships s" "([], [])"] by simp
  have passed: "(length (fst ?acc) = 0) \<longleftrightarrow>
      (\<forall>rel \<in> set (relationships s). source_id rel \<in> ?ids \<and> target_id rel \<in> ?ids)"
    unfolding orph by (simp add: filter_empty_conv)
  show ?thesis
    using sum passed by (simp add: validate_entity_relationships_def Let_def add.commute)
qed

theorem validate_entity_relationships_report_witness:
  "validation_passed (fst (validate_entity_relationships
      \<lparr>entities = [\<lparr>entity_id = ''a'', entity_type = ''T'', properties = [], text_content = None\<rparr>],
       relationships = [\<lparr>source_id = ''a'', target_id = ''a'', relationship_type = ''R'', rel_properties = []\<rparr>],
       respondent_counter = 0, respondent_id_mapping = Map.empty, clock_reads = 0\<rparr>)) \<and>
   \<not> validation_passed (fst (validate_entity_relationships
      \<lparr>entities = [\<lparr>entity_id = ''a'', entity_type = ''T'', properties = [], text_content = None\<rparr>],
       relationships = [\<lparr>source_id = ''a'', target_id = ''b'', relationship_type = ''R'', rel_properties = []\<rparr>],
       respondent_counter = 0, respondent_id_mapping = Map.empty, clock_reads = 0\<rparr>))"
  using validate_entity_relationships_report
    [of "\<lparr>entities = [\<lparr>entity_id = ''a'', entity_type = ''T'', properties = [], text_content = None\<rparr>],
       relationships = [\<lparr>source_id = ''a'', target_id = ''a'', relationship_type = ''R'', rel_properties = []\<rparr>],
       respondent_counter = 0, respondent_id_mapping = Map.empty, clock_reads = 0\<rparr>"]
    validate_entity_relationships_report
    [of "\<lparr>entities = [\<lparr>entity_id = ''a'', entity_type = ''T'', properties = [], text_content = None\<rparr>],
       relationships = [\<lparr>source_id = ''a'', target_id = ''b'', relationship_type = ''R'', rel_properties = []\<rparr>],
       respondent_counter = 0, respondent_id_mapping = Map.empty, clock_reads = 0\<rparr>"]
  by simp

section \<open>Respondent extraction\<close>

lemma safe_convert_value_nonempty: "safe_convert_value v \<noteq> Some []"
  by (simp add: safe_convert_value_def Let_def)

lemma py_or_safe_convert_value:
  "py_or (safe_convert_value v) b = (case safe_convert_value v of None \<Rightarrow> b | Some x \<Rightarrow> x)"
  using safe_convert_value_nonempty [of v]
  by (simp add: py_or_def split: option.splits)

lemma row_get_cell_at: "row_get cols row column = cell_at cols row column"
  by (induction cols row column rule: cell_at.induct) (simp_all add: row_get_def)

lemma safe_convert_value_present: "safe_convert_value v = present_value v"
proof (cases "v = PyNone \<or> v = NaN")
  case True
  then show ?thesis
    by (auto simp add: present_value_def absent_equivalent_def safe_convert_value_def pd_isna_def)
next
  case False
  have "py_str v = [] \<Longrightarrow> list_all isspace (py_str v)" by simp
  then have "absent_equivalent v \<longleftrightarrow>
      strip (py_str v) = [] \<or> lower (strip (py_str v)) \<in> set [''nan'', ''none'', ''null'']"
    using False by (auto simp add: absent_equivalent_def strip_Nil_iff)
  then show ?thesis
    using False by (simp add: present_value_def safe_convert_value_def pd_isna_def Let_def)
qed

lemma extract_respondent_row_entities:
  "\<exists>e. entities (extract_respondent_row clk cols (i, row) s) = entities s @ [e] \<and>
       is_respondent_entity_of clk cols i row (respondent_counter s) e \<and>
       respondent_id_mapping (extract_respondent_row clk cols (i, row) s) =
         (respondent_id_mapping s)(i \<mapsto> entity_id e)"
proof -
  have p: "py_or (safe_convert_value (row_get cols row c)) b =
      (case present_value (cell_at cols row c) of None \<Rightarrow> b | Some x \<Rightarrow> x)" for c b
    unfolding py_or_safe_convert_value by (simp add: row_get_cell_at safe_convert_value_present)
  show ?thesis
    by (auto simp add: extract_respondent_row_def Let_def is_respondent_entity_of_def
        respondent_properties_of_def p split: option.splits)
qed

lemma extract_respondent_row_counter:
  "respondent_counter (extract_respondent_row clk cols ir s) = Suc (respondent_counter s)"
  by (simp add: extract_respondent_row_def Let_def)

lemma extract_respondent_row_relationships:
  "relationships (extract_respondent_row clk cols ir s) = relationships s"
  by (simp add: extract_respondent_row_def Let_def)

lemma fold_extract_respondent_row:
  "\<exists>es. entities (fold (extract_respondent_row clk cols) (enumerate n rs) s) = entities s @ es \<and>
        length es = length rs \<and>
        (\<forall>j < length rs.
           is_respondent_entity_of clk cols (n + j) (rs ! j) (respondent_counter s + j) (es ! j) \<and>
           respondent_id_mapping (fold (extract_respondent_row clk cols) (enumerate n rs) s) (n + j) =
             Some (entity_id (es ! j))) \<and>
        (\<forall>i < n. respondent_id_mapping (fold (extract_respondent_row clk cols) (enumerate n rs) s) i =
             respondent_id_mapping s i)"
proof (induction rs arbitrary: n s)
  case Nil
  show ?case by simp
next
  case (Cons row rs)
  let ?s1 = "extract_respondent_row clk cols (n, row) s"
  let ?s2 = "fold (extract_respondent_row clk cols) (enumerate (Suc n) rs) ?s1"
  obtain e where e: "entities ?s1 = entities s @ [e]"
      "is_respondent_entity_of clk cols n row (respondent_counter s) e"
      "respondent_id_mapping ?s1 = (respondent_id_mapping s)(n \<mapsto> entity_id e)"
    using extract_respondent_row_entities [of clk cols n row s] by blast
  obtain es where es: "entities ?s2 = entities ?s1 @ es" "length es = length rs"
      "\<forall>j < length rs.
         is_respondent_entity_of clk cols (Suc n + j) (rs ! j) (respondent_counter ?s1 + j) (es ! j) \<and>
         respondent_id_mapping ?s2 (Suc n + j) = Some (entity_id (es ! j))"
      "\<forall>i < Suc n. respondent_id_mapping ?s2 i = respondent_id_mapping ?s1 i"
    using Cons.IH [of "Suc n" ?s1] by blast
  have a: "entities ?s2 = entities s @ (e # es)" using e(1) es(1) by simp
  have b: "length (e # es) = length (row # rs)" using es(2) by simp
  have c: "is_respondent_entity_of clk cols (n + j) ((row # rs) ! j) (respondent_counter s + j) ((e # es) ! j) \<and>
           respondent_id_mapping ?s2 (n + j) = Some (entity_id ((e # es) ! j))"
    if "j < length (row # rs)" for j
  proof (cases j)
    case 0
    then show ?thesis using e(2) e(3) es(4) by simp
  next
    case (Suc j')
    then have "j' < length rs" using that by simp
    then show ?thesis
      using es(3) Suc by (simp add: extract_respondent_row_counter)
  qed
  have d: "respondent_id_mapping ?s2 i = respondent_id_mapping s i" if "i < n" for i
    using es(4) e(3) that by simp
  show ?case
    using a b c d by (intro exI [of _ "e # es"]) simp
qed

lemma extract_respondent_entities_rows:
  "\<exists>es. entities (extract_respondent_entities clk df s) = entities s @ es \<and>
        length es = length (rows df) \<and>
        (\<forall>i < length (rows df).
           is_respondent_entity_of clk (columns df) i (row_series df (rows df ! i))
             (respondent_counter s + i) (es ! i) \<and>
           respondent_id_mapping (extract_respondent_entities clk df s) i = Some (entity_id (es ! i)))"
proof -
  let ?s0 = "s\<lparr>respondent_id_mapping := Map.empty\<rparr>"
  let ?rs = "map (row_series df) (rows df)"
  obtain es where es:
      "entities (fold (extract_respondent_row clk (columns df)) (enumerate 0 ?rs) ?s0) =
         entities ?s0 @ es"
      "length es = length ?rs"
      "\<forall>j < length ?rs.
         is_respondent_entity_of clk (columns df) (0 + j) (?rs ! j) (respondent_counter ?s0 + j) (es ! j) \<and>
         respondent_id_mapping (fold (extract_respondent_row clk (columns df)) (enumerate 0 ?rs) ?s0) (0 + j) =
           Some (entity_id (es ! j))"
    using fold_extract_respondent_row [of clk "columns df" 0 ?rs ?s0] by blast
  show ?thesis
    using es by (intro exI [of _ es]) (simp add: extract_respondent_entities_def iterrows_def)
qed


section \<open>Referential closure of the extraction\<close>

lemma validate_entity_relationships_passed:
  "validation_passed (fst (validate_entity_relationships s)) \<longleftrightarrow>
     (\<forall>rel \<in> set (relationships s).
         source_id rel \<in> entity_id ` set (entities s) \<and>
         target_id rel \<in> entity_id ` set (entities s))"
proof -
  let ?ids = "set (map entity_id (entities s))"
  let ?acc = "fold (validate_step ?ids) (relationships s) ([], [])"
  have orph: "length (fst ?acc) =
      length (filter (\<lambda>rel. \<not> (source_id rel \<in> ?ids \<and> target_id rel \<in> ?ids)) (relationships s))"
    using fold_validate_step_orphaned [of ?ids "relationships s" "([], [])"] by simp
  have "(length (fst ?acc) = 0) \<longleftrightarrow>
      (\<forall>rel \<in> set (relationships s). source_id rel \<in> ?ids \<and> target_id rel \<in> ?ids)"
    unfolding orph by (simp add: filter_empty_conv)
  then show ?thesis
    by (simp add: validate_entity_relationships_def Let_def)
qed

lemma validate_entity_relationships_state: "snd (validate_entity_relationships s) = s"
  by (simp add: validate_entity_relationships_def Let_def)

lemma new_ids_append:
  "length (entities base) \<le> length (entities s) \<Longrightarrow> entities s' = entities s @ es \<Longrightarrow>
   new_ids base s' = new_ids base s \<union> entity_id ` set es"
  by (auto simp add: new_ids_def)

lemma closed_from_refl:
  "respondent_id_mapping s = Map.empty \<Longrightarrow> closed_from s s"
  by (simp add: closed_from_def)

lemma closed_from_extend:
  assumes "closed_from base s"
    and "entities s' = entities s @ es"
    and "relationships s' = relationships s @ rels"
    and "\<forall>rel \<in> set rels. source_id rel \<in> new_ids base s \<union> entity_id ` set es \<and>
                           target_id rel \<in> new_ids base s \<union> entity_id ` set es"
    and "\<forall>i rid. respondent_id_mapping s' i = Some rid \<longrightarrow>
           rid \<in> new_ids base s \<union> entity_id ` set es"
  shows "closed_from base s'"
proof -
  have le: "length (entities base) \<le> length (entities s)"
      "length (relationships base) \<le> length (relationships s)"
    using assms(1) by (simp_all add: closed_from_def)
  have ids: "new_ids base s' = new_ids base s \<union> entity_id ` set es"
    using new_ids_append [OF le(1) assms(2)] .
  have old: "\<forall>rel \<in> set (drop (length (relationships base)) (relationships s)).
      source_id rel \<in> new_ids base s \<and> target_id rel \<in> new_ids base s"
    using assms(1) by (simp add: closed_from_def)
  have tk: "take (length (entities base)) (entities s) = entities base"
      "take (length (relationships base)) (relationships s) = relationships base"
    using assms(1) by (simp_all add: closed_from_def)
  show ?thesis
    unfolding closed_from_def ids
    using le tk old assms(2-5) by auto
qed

lemma closed_from_respondent_row:
  assumes "closed_from base s"
  shows "closed_from base (extract_respondent_row clk cols ir s)"
proof -
  let ?s' = "extract_respondent_row clk cols ir s"
  obtain e where e: "entities ?s' = entities s @ [e]"
      "respondent_id_mapping ?s' = (respondent_id_mapping s)(fst ir \<mapsto> entity_id e)"
    using extract_respondent_row_entities [of clk cols "fst ir" "snd ir" s] by auto
  have m: "\<forall>i rid. respondent_id_mapping s i = Some rid \<longrightarrow> rid \<in> new_ids base s"
    using assms by (simp add: closed_from_def)
  show ?thesis
    by (rule closed_from_extend [OF assms e(1), of "[]"])
      (use m e(2) in \<open>auto simp add: extract_respondent_row_relationships\<close>)
qed

lemma closed_from_respondent_entities:
  assumes "closed_from base s"
  shows "closed_from base (fold (extract_respondent_row clk cols) irs s)"
  by (rule fold_invariant [where Q = "\<lambda>_. True" and P = "closed_from base"])
    (use assms closed_from_respondent_row in auto)

lemma new_ids_mono:
  "closed_from base s \<Longrightarrow> entities s' = entities s @ es \<Longrightarrow> new_ids base s \<subseteq> new_ids base s'"
  using new_ids_append [of base s s' es] by (auto simp add: closed_from_def)

lemma closed_from_response_category:
  assumes "closed_from base s" and "rid \<in> new_ids base s"
  shows "closed_from base (extract_response_category ont clk cols row rid m s) \<and>
         rid \<in> new_ids base (extract_response_category ont clk cols row rid m s) \<and>
         respondent_id_mapping (extract_response_category ont clk cols row rid m s) =
           respondent_id_mapping s"
proof (cases "non_null (collect_category_responses ont cols row (snd m)) \<noteq> []")
  case False
  then show ?thesis using assms by (simp add: extract_response_category_def Let_def)
next
  case True
  let ?s' = "extract_response_category ont clk cols row rid m s"
  let ?e = "response_entity_for ont rid (fst m) (collect_category_responses ont cols row (snd m))"
  let ?r = "response_relationship_for rid (fst m) (collect_category_responses ont cols row (snd m))
              (clk (clock_reads s))"
  have e: "entities ?s' = entities s @ [?e]" and r: "relationships ?s' = relationships s @ [?r]"
    and mp: "respondent_id_mapping ?s' = respondent_id_mapping s"
    using True by (simp_all add: extract_response_category_def Let_def)
  have m: "\<forall>i rid. respondent_id_mapping s i = Some rid \<longrightarrow> rid \<in> new_ids base s"
    using assms(1) by (simp add: closed_from_def)
  have c: "closed_from base ?s'"
    by (rule closed_from_extend [OF assms(1) e r])
      (use m mp assms(2) in
        \<open>auto simp add: response_entity_for_def response_relationship_for_def\<close>)
  show ?thesis
    using c mp new_ids_mono [OF assms(1) e] assms(2) by auto
qed

lemma closed_from_response_categories:
  assumes "closed_from base s" and "rid \<in> new_ids base s"
  shows "closed_from base (fold (extract_response_category ont clk cols row rid) ms s) \<and>
         rid \<in> new_ids base (fold (extract_response_category ont clk cols row rid) ms s) \<and>
         respondent_id_mapping (fold (extract_response_category ont clk cols row rid) ms s) =
           respondent_id_mapping s"
  using assms
proof (induction ms arbitrary: s)
  case Nil
  then show ?case by simp
next
  case (Cons m ms)
  let ?s1 = "extract_response_category ont clk cols row rid m s"
  have s1: "closed_from base ?s1" "rid \<in> new_ids base ?s1"
      "respondent_id_mapping ?s1 = respondent_id_mapping s"
    using closed_from_response_category [OF Cons.prems, of ont clk cols row m] by simp_all
  show ?case
    using Cons.IH [OF s1(1) s1(2)] s1(3) by simp
qed

lemma truthy_py_or: "truthy a \<Longrightarrow> a = Some (py_or a b)"
  by (cases a) (simp_all add: truthy_def py_or_def)

lemma closed_from_response_row:
  assumes "closed_from base s"
  shows "closed_from base (extract_response_row ont clk cols ir s)"
proof (cases "truthy (respondent_id_mapping s (fst ir))")
  case False
  then show ?thesis using assms by (simp add: extract_response_row_def)
next
  case True
  let ?rid = "py_or (respondent_id_mapping s (fst ir)) []"
  have "respondent_id_mapping s (fst ir) = Some ?rid"
    using truthy_py_or [OF True] .
  then have "?rid \<in> new_ids base s"
    using assms by (simp add: closed_from_def)
  then show ?thesis
    using closed_from_response_categories [OF assms, of ?rid ont clk cols "snd ir"] True
    by (simp add: extract_response_row_def)
qed

lemma closed_from_response_entities:
  assumes "closed_from base s"
  shows "closed_from base (extract_response_entities ont clk df s)"
  unfolding extract_response_entities_def
  by (rule fold_invariant [where Q = "\<lambda>_. True" and P = "closed_from base"])
    (use assms closed_from_response_row in auto)

lemma closed_from_question_column:
  assumes "closed_from base (snd ps)"
  shows "closed_from base (snd (extract_question_column ont df column ps))"
proof (cases "recognised ont column \<and> column \<notin> fst ps")
  case False
  then show ?thesis using assms by (auto simp add: extract_question_column_def Let_def)
next
  case True
  let ?s' = "snd (extract_question_column ont df column ps)"
  have e: "entities ?s' = entities (snd ps) @ [question_entity_for ont df column]"
    and r: "relationships ?s' = relationships (snd ps) @ []"
    and mp: "respondent_id_mapping ?s' = respondent_id_mapping (snd ps)"
    using True by (simp_all add: extract_question_column_def Let_def)
  have m: "\<forall>i rid. respondent_id_mapping (snd ps) i = Some rid \<longrightarrow> rid \<in> new_ids base (snd ps)"
    using assms by (simp add: closed_from_def)
  show ?thesis
    by (rule closed_from_extend [OF assms e r]) (use m mp in auto)
qed

lemma closed_from_question_entities:
  assumes "closed_from base s"
  shows "closed_from base (extract_question_entities ont df s)"
  unfolding extract_question_entities_def
  by (rule fold_invariant [where Q = "\<lambda>_. True" and P = "\<lambda>ps. closed_from base (snd ps)"])
    (use assms closed_from_question_column in auto)

lemma closed_from_link_survey_respondent:
  assumes "closed_from base s" and "''survey_'' @ safe_project_name p \<in> new_ids base s"
  shows "closed_from base (link_survey_respondent p ir s) \<and>
         ''survey_'' @ safe_project_name p \<in> new_ids base (link_survey_respondent p ir s)"
proof (cases "truthy (respondent_id_mapping s (fst ir))")
  case False
  then show ?thesis using assms by (simp add: link_survey_respondent_def)
next
  case True
  let ?rid = "py_or (respondent_id_mapping s (fst ir)) []"
  let ?s' = "link_survey_respondent p ir s"
  have "respondent_id_mapping s (fst ir) = Some ?rid"
    using truthy_py_or [OF True] .
  then have rid: "?rid \<in> new_ids base s"
    using assms(1) by (simp add: closed_from_def)
  have e: "entities ?s' = entities s @ []"
    and r: "relationships ?s' = relationships s @ [has_respondent_for p ?rid]"
    and mp: "respondent_id_mapping ?s' = respondent_id_mapping s"
    using True by (simp_all add: link_survey_respondent_def)
  have m: "\<forall>i rid. respondent_id_mapping s i = Some rid \<longrightarrow> rid \<in> new_ids base s"
    using assms(1) by (simp add: closed_from_def)
  have c: "closed_from base ?s'"
    by (rule closed_from_extend [OF assms(1) e r])
      (use m mp rid assms(2) in \<open>auto simp add: has_respondent_for_def\<close>)
  show ?thesis
    using c new_ids_mono [OF assms(1) e] assms(2) by auto
qed

lemma closed_from_survey_project:
  assumes "closed_from base s"
  shows "closed_from base (extract_survey_project df p s)"
proof -
  let ?s1 = "s\<lparr>entities := entities s @ [survey_entity_for df p]\<rparr>"
  have m: "\<forall>i rid. respondent_id_mapping s i = Some rid \<longrightarrow> rid \<in> new_ids base s"
    using assms by (simp add: closed_from_def)
  have c1: "closed_from base ?s1"
    by (rule closed_from_extend [OF assms, of _ "[survey_entity_for df p]" "[]"])
      (use m in auto)
  have "length (entities base) \<le> length (entities s)"
    using assms by (simp add: closed_from_def)
  then have i1: "''survey_'' @ safe_project_name p \<in> new_ids base ?s1"
    by (simp add: new_ids_def survey_entity_for_def Let_def)
  have "closed_from base (fold (link_survey_respondent p) irs ?s1) \<and>
        ''survey_'' @ safe_project_name p \<in> new_ids base (fold (link_survey_respondent p) irs ?s1)"
    for irs
    by (rule fold_invariant [where Q = "\<lambda>_. True"
          and P = "\<lambda>t. closed_from base t \<and> ''survey_'' @ safe_project_name p \<in> new_ids base t"])
      (use c1 i1 closed_from_link_survey_respondent in auto)
  then show ?thesis by (simp add: extract_survey_project_def)
qed

lemma closed_from_survey_metadata:
  assumes "closed_from base s"
  shows "closed_from base (extract_survey_metadata df s)"
proof (cases "''PROJECT_NAME'' \<in> set (columns df)")
  case False
  then show ?thesis using assms by (simp add: extract_survey_metadata_def)
next
  case True
  have "closed_from base (fold (extract_survey_project df) (project_names df) s)"
    by (rule fold_invariant [where Q = "\<lambda>_. True" and P = "closed_from base"])
      (use assms closed_from_survey_project in auto)
  then show ?thesis using True by (simp add: extract_survey_metadata_def)
qed

lemma closed_from_build:
  "closed_from s (snd (build_knowledge_graph ont clk (Inr df) s))"
proof -
  let ?s1 = "s\<lparr>respondent_counter := 1, respondent_id_mapping := Map.empty\<rparr>"
  let ?s1' = "?s1\<lparr>respondent_id_mapping := Map.empty\<rparr>"
  have "closed_from ?s1' ?s1'" by (rule closed_from_refl) simp
  then have c1: "closed_from s ?s1'" by (simp add: closed_from_def new_ids_def)
  have c2: "closed_from s (extract_respondent_entities clk df ?s1)"
    unfolding extract_respondent_entities_def
    by (rule closed_from_respondent_entities [OF c1])
  show ?thesis
    using closed_from_survey_metadata [OF closed_from_question_entities
        [OF closed_from_response_entities [OF c2]]]
    by (simp add: build_knowledge_graph_def Let_def validate_entity_relationships_state)
qed

lemma build_knowledge_graph_result:
  "fst (build_knowledge_graph ont clk (Inr df) s) =
     Inr (entities (snd (build_knowledge_graph ont clk (Inr df) s)),
          relationships (snd (build_knowledge_graph ont clk (Inr df) s)))"
  by (simp add: build_knowledge_graph_def Let_def)

lemma validation_passed_orphaned:
  "validation_passed (fst (validate_entity_relationships s)) \<longleftrightarrow>
     orphaned_relationships (fst (validate_entity_relationships s)) = []"
  by (simp add: validate_entity_relationships_def Let_def)

text \<open>
  C10: a run appends entities and relationships to the builder, and every relationship it
  appends has both endpoints among the identifiers of the entities it appends. On a
  builder that holds nothing yet, the run returns exactly those, and the validator
  finds no orphaned relationship in them.
\<close>

theorem build_knowledge_graph_referentially_closed:
  assumes "build_knowledge_graph ont clk (Inr df) s = (res, s')"
  shows "\<exists>es rels.
           entities s' = entities s @ es \<and> relationships s' = relationships s @ rels \<and>
           (\<forall>rel \<in> set rels.
               source_id rel \<in> entity_id ` set es \<and> target_id rel \<in> entity_id ` set es) \<and>
           (entities s = [] \<and> relationships s = [] \<longrightarrow>
              res = Inr (es, rels) \<and>
              validation_passed (fst (validate_entity_relationships s')) \<and>
              orphaned_relationships (fst (validate_entity_relationships s')) = [])"
proof -
  let ?es = "drop (length (entities s)) (entities s')"
  let ?rels = "drop (length (relationships s)) (relationships s')"
  have s': "s' = snd (build_knowledge_graph ont clk (Inr df) s)"
    and res: "res = Inr (entities s', relationships s')"
    using assms build_knowledge_graph_result [of ont clk df s] by simp_all
  have c: "closed_from s s'"
    unfolding s' by (rule closed_from_build)
  have e: "entities s' = entities s @ ?es"
    using c append_take_drop_id [of "length (entities s)" "entities s'"]
    by (simp add: closed_from_def)
  have r: "relationships s' = relationships s @ ?rels"
    using c append_take_drop_id [of "length (relationships s)" "relationships s'"]
    by (simp add: closed_from_def)
  have cl: "\<forall>rel \<in> set ?rels.
      source_id rel \<in> entity_id ` set ?es \<and> target_id rel \<in> entity_id ` set ?es"
    using c by (simp add: closed_from_def new_ids_def)
  have fresh: "res = Inr (?es, ?rels) \<and>
      validation_passed (fst (validate_entity_relationships s')) \<and>
      orphaned_relationships (fst (validate_entity_relationships s')) = []"
    if "entities s = [] \<and> relationships s = []"
  proof -
    have "validation_passed (fst (validate_entity_relationships s'))"
      unfolding validate_entity_relationships_passed using cl that by simp
    then show ?thesis
      using res that validation_passed_orphaned [of s'] by simp
  qed
  show ?thesis
    using e r cl fresh by (intro exI [of _ ?es] exI [of _ ?rels]) blast
qed

theorem build_knowledge_graph_referentially_closed_witness:
  "entities (init_builder 0) = [] \<and> relationships (init_builder 0) = [] \<and>
   validation_passed (fst (validate_entity_relationships
     (snd (build_knowledge_graph example_ontology example_clock (Inr example_table) (init_builder 0))))) \<and>
   orphaned_relationships (fst (validate_entity_relationships
     (snd (build_knowledge_graph example_ontology example_clock (Inr example_table) (init_builder 0))))) = []"
  using build_knowledge_graph_referentially_closed
    [of example_ontology example_clock example_table "init_builder 0"
        "fst (build_knowledge_graph example_ontology example_clock (Inr example_table) (init_builder 0))"
        "snd (build_knowledge_graph example_ontology example_clock (Inr example_table) (init_builder 0))"]
  by (auto simp add: init_builder_def)

section \<open>Clearing the store\<close>

lemma delete_query_count_step:
  assumes "0 < b" and "0 < n"
  shows "delete_query_count b n = Suc (delete_query_count b (n - b))"
proof (cases "b \<le> n")
  case True
  then have "n div b = Suc ((n - b) div b)" and "n mod b = (n - b) mod b"
    using assms(1) by (simp_all add: le_div_geq le_mod_geq)
  then show ?thesis by (simp add: delete_query_count_def)
next
  case False
  then have "n div b = 0" and "n mod b = n" by simp_all
  then show ?thesis using False assms(2) by (simp add: delete_query_count_def)
qed

lemma delete_relationships_loop_result:
  "0 < b \<Longrightarrow>
   delete_relationships_loop b st =
     st\<lparr>edges := [],
        queries := queries st @ replicate (delete_query_count b (length (edges st))) (DeleteRelationships b)\<rparr>"
proof (induction b st rule: delete_relationships_loop.induct)
  case (1 b st)
  show ?case
  proof (cases "edges st = []")
    case True
    then show ?thesis
      by (subst delete_relationships_loop.simps)
        (simp add: run_delete_relationships_def delete_query_count_def)
  next
    case False
    let ?st' = "snd (run_delete_relationships b st)"
    have nz: "fst (run_delete_relationships b st) \<noteq> 0"
      using False "1.prems" by (simp add: run_delete_relationships_def)
    have step: "delete_relationships_loop b st = delete_relationships_loop b ?st'"
      using nz by (subst delete_relationships_loop.simps) simp
    have cnt: "delete_query_count b (length (edges st)) =
        Suc (delete_query_count b (length (edges st) - b))"
      using delete_query_count_step [of b "length (edges st)"] False "1.prems" by simp
    show ?thesis
      unfolding step "1.IH" [OF nz "1.prems"] cnt
      by (simp add: run_delete_relationships_def replicate_append_same)
  qed
qed

lemma delete_nodes_loop_result:
  "0 < b \<Longrightarrow>
   delete_nodes_loop b st =
     st\<lparr>nodes := [],
        queries := queries st @ replicate (delete_query_count b (length (nodes st))) (DeleteNodes b)\<rparr>"
proof (induction b st rule: delete_nodes_loop.induct)
  case (1 b st)
  show ?case
  proof (cases "nodes st = []")
    case True
    then show ?thesis
      by (subst delete_nodes_loop.simps)
        (simp add: run_delete_nodes_def delete_query_count_def)
  next
    case False
    let ?st' = "snd (run_delete_nodes b st)"
    have nz: "fst (run_delete_nodes b st) \<noteq> 0"
      using False "1.prems" by (simp add: run_delete_nodes_def)
    have step: "delete_nodes_loop b st = delete_nodes_loop b ?st'"
      using nz by (subst delete_nodes_loop.simps) simp
    have cnt: "delete_query_count b (length (nodes st)) =
        Suc (delete_query_count b (length (nodes st) - b))"
      using delete_query_count_step [of b "length (nodes st)"] False "1.prems" by simp
    show ?thesis
      unfolding step "1.IH" [OF nz "1.prems"] cnt
      by (simp add: run_delete_nodes_def replicate_append_same)
  qed
qed

text \<open>
  C9: without confirmation the store is returned as it is, with no query run. With
  confirmation the loops end with no relationship and no node left, having run only
  delete queries limited to 10000 items, those for relationships before those for nodes.
\<close>

theorem clear_database_gated:
  "clear_database False st = st \<and>
   clear_database True st =
     st\<lparr>nodes := [], edges := [],
        queries := queries st @
          replicate (delete_query_count 10000 (length (edges st))) (DeleteRelationships 10000) @
          replicate (delete_query_count 10000 (length (nodes st))) (DeleteNodes 10000)\<rparr>"
  by (simp add: clear_database_def delete_relationships_loop_result delete_nodes_loop_result)

section \<open>Batched loading\<close>

lemma concat_batches_from:
  "0 < step \<Longrightarrow> concat (batches_from step i xs) = drop i xs"
proof (induction step i xs rule: batches_from.induct)
  case (1 step i xs)
  show ?case
  proof (cases "length xs \<le> i")
    case True
    then show ?thesis by (subst batches_from.simps) simp
  next
    case False
    have "concat (batches_from step i xs) =
        take step (drop i xs) @ concat (batches_from step (i + step) xs)"
      using False "1.prems" by (subst batches_from.simps) simp
    also have "\<dots> = take step (drop i xs) @ drop step (drop i xs)"
      using "1.IH" False "1.prems" by (simp add: add.commute del: append_take_drop_id)
    also have "\<dots> = drop i xs"
      by (rule append_take_drop_id)
    finally show ?thesis .
  qed
qed

lemma tagged_append: "tagged (g @ h) = tagged g @ tagged h"
  by (simp add: tagged_def)

lemma tagged_dict_set:
  "map_of g k = Some ys \<Longrightarrow>
   mset (tagged (dict_set g k (ys @ [x]))) = mset (tagged g) + {#(k, x)#}"
proof (induction g)
  case Nil
  then show ?case by simp
next
  case (Cons kv g)
  show ?case
  proof (cases "fst kv = k")
    case True
    then have "snd kv = ys" using Cons.prems by (cases kv) simp
    then show ?thesis using True by (cases kv) (simp add: tagged_def)
  next
    case False
    then have "map_of g k = Some ys" using Cons.prems by (cases kv) simp
    from Cons.IH [OF this] show ?thesis using False by (cases kv) (simp add: tagged_def)
  qed
qed

lemma tagged_group_add:
  "mset (tagged (group_add key x g)) = mset (tagged g) + {#(key x, x)#}"
proof (cases "map_of g (key x)")
  case None
  then show ?thesis by (simp add: group_add_def tagged_def)
next
  case (Some ys)
  then show ?thesis by (simp add: group_add_def tagged_dict_set)
qed

lemma tagged_fold_group_add:
  "mset (tagged (fold (group_add key) xs g)) = mset (tagged g) + image_mset (\<lambda>x. (key x, x)) (mset xs)"
  by (induction xs arbitrary: g) (simp_all add: tagged_group_add)

lemma tagged_group_by_type:
  "mset (tagged (group_by_type key xs)) = image_mset (\<lambda>x. (key x, x)) (mset xs)"
proof -
  have "tagged ([] :: (string \<times> 'a list) list) = []" by (simp add: tagged_def)
  then show ?thesis
    using tagged_fold_group_add [of key xs "[]"] by (simp add: group_by_type_def)
qed

lemma node_of_entity_eq:
  "node_of_entity = (\<lambda>e. node_of (entity_type e) (entity_data_of e))"
  by (simp add: fun_eq_iff node_of_entity_def)

lemma edges_of_relationship_eq:
  "edges_of_relationship st = (\<lambda>rel. edges_of st (relationship_type rel) (rel_data_of rel))"
  by (simp add: fun_eq_iff edges_of_relationship_def)

lemma submitted_create_nodes:
  "concat (map submitted_entities_of (map (\<lambda>g. CreateNodes (fst g) (map entity_data_of (snd g))) groups)) =
   map (\<lambda>p. (fst p, entity_data_of (snd p))) (tagged groups)"
  by (induction groups) (simp_all add: tagged_def)

lemma edges_of_nodes: "nodes st' = nodes st \<Longrightarrow> edges_of st' = edges_of st"
  by (simp add: edges_of_def matching_nodes_def fun_eq_iff)

lemma submitted_create_relationships:
  "concat (map submitted_relationships_of
      (map (\<lambda>g. CreateRelationships (fst g) (map rel_data_of (snd g))) groups)) =
   map (\<lambda>p. (fst p, rel_data_of (snd p))) (tagged groups)"
  by (induction groups) (simp_all add: tagged_def)

lemma mset_concat_map:
  "mset (concat (map f xs)) = (\<Sum>x \<in># mset xs. mset (f x))"
  by (induction xs) simp_all

lemma edges_of_relationship_nodes:
  "nodes st' = nodes st \<Longrightarrow> edges_of_relationship st' = edges_of_relationship st"
  using edges_of_nodes [of st' st] by (simp add: edges_of_relationship_def fun_eq_iff)

section \<open>Decimal strings and respondent identifiers\<close>

lemma below_ten: "d < 10 \<Longrightarrow> d \<in> {0, 1, 2, 3, 4, 5, 6, 7, 8, 9 :: nat}"
  by auto

lemma digit_value_digit_char: "d < 10 \<Longrightarrow> digit_value (digit_char d) = d"
  using below_ten [of d] by (auto simp add: digit_value_def digit_char_def)

lemma isdigit_digit_char: "d < 10 \<Longrightarrow> isdigit (digit_char d)"
  using below_ten [of d] by (auto simp add: isdigit_def digit_char_def)

lemma nat_of_str_snoc: "nat_of_str (s @ [c]) = 10 * nat_of_str s + digit_value c"
  by (simp add: nat_of_str_def)

lemma nat_of_str_str_nat: "nat_of_str (str_nat n) = n"
proof (induction n rule: str_nat.induct)
  case (1 n)
  show ?case
  proof (cases "n < 10")
    case True
    then show ?thesis
      by (subst str_nat.simps) (simp add: nat_of_str_def digit_value_digit_char)
  next
    case False
    then have "nat_of_str (str_nat n) = 10 * nat_of_str (str_nat (n div 10)) + n mod 10"
      by (subst str_nat.simps) (simp add: nat_of_str_snoc digit_value_digit_char)
    then show ?thesis using "1.IH" False by simp
  qed
qed

lemma str_nat_digits: "list_all isdigit (str_nat n)"
proof (induction n rule: str_nat.induct)
  case (1 n)
  show ?case
  proof (cases "n < 10")
    case True
    then show ?thesis by (subst str_nat.simps) (simp add: isdigit_digit_char)
  next
    case False
    then show ?thesis
      using "1.IH" by (subst str_nat.simps) (simp add: isdigit_digit_char)
  qed
qed

lemma str_nat_nonempty: "str_nat n \<noteq> []"
  by (subst str_nat.simps) simp

lemma length_str_nat_le: "n < 10 ^ k \<Longrightarrow> 0 < k \<Longrightarrow> length (str_nat n) \<le> k"
proof (induction n arbitrary: k rule: str_nat.induct)
  case (1 n)
  show ?case
  proof (cases "n < 10")
    case True
    then show ?thesis using "1.prems" by (subst str_nat.simps) simp
  next
    case False
    obtain k' where k: "k = Suc k'" using "1.prems"(2) by (cases k) simp_all
    have "0 < k'"
    proof (rule ccontr)
      assume "\<not> 0 < k'"
      then show False using "1.prems"(1) False k by simp
    qed
    moreover have "n div 10 < 10 ^ k'" using "1.prems"(1) k by (simp add: less_mult_imp_div_less mult.commute)
    ultimately have "length (str_nat (n div 10)) \<le> k'" using "1.IH" False by simp
    then show ?thesis using False k by (subst str_nat.simps) simp
  qed
qed

lemma nat_of_str_zeros: "nat_of_str (replicate m CHR ''0'' @ s) = nat_of_str s"
proof (induction m)
  case 0
  show ?case by simp
next
  case (Suc m)
  have "digit_value CHR ''0'' = 0" by (simp add: digit_value_def)
  then have "nat_of_str (CHR ''0'' # t) = nat_of_str t" for t
    by (simp add: nat_of_str_def)
  then show ?case using Suc by simp
qed

lemma nat_of_str_zero_pad: "nat_of_str (zero_pad w n) = n"
  by (simp add: zero_pad_def nat_of_str_zeros nat_of_str_str_nat)

lemma zero_pad_digits: "list_all isdigit (zero_pad w n)"
proof -
  have z: "isdigit CHR ''0''" by (simp add: isdigit_def)
  have "list_all isdigit (replicate k CHR ''0'')" for k
    using z by (induction k) simp_all
  then show ?thesis using str_nat_digits [of n] by (simp add: zero_pad_def)
qed

lemma zero_pad_nonempty: "zero_pad w n \<noteq> []"
  by (simp add: zero_pad_def str_nat_nonempty)

lemma length_zero_pad: "n < 10 ^ w \<Longrightarrow> 0 < w \<Longrightarrow> length (zero_pad w n) = w"
  using length_str_nat_le [of n w] by (simp add: zero_pad_def)

lemma length_strftime_YmdHMS:
  assumes "valid_datetime d"
  shows "length (strftime_YmdHMS d) = 14"
proof -
  have "length (zero_pad 4 (dt_year d)) = 4" "length (zero_pad 2 (dt_month d)) = 2"
    "length (zero_pad 2 (dt_day d)) = 2" "length (zero_pad 2 (dt_hour d)) = 2"
    "length (zero_pad 2 (dt_minute d)) = 2" "length (zero_pad 2 (dt_second d)) = 2"
    using assms by (simp_all add: valid_datetime_def length_zero_pad)
  then show ?thesis by (simp add: strftime_YmdHMS_def)
qed

lemma strftime_YmdHMS_digits: "list_all isdigit (strftime_YmdHMS d)"
  by (simp add: strftime_YmdHMS_def zero_pad_digits)

lemma respondent_id_format_digits: "list_all isdigit (respondent_id_format c d)"
  by (simp add: respondent_id_format_def zero_pad_digits strftime_YmdHMS_digits)

lemma respondent_id_format_nonempty: "respondent_id_format c d \<noteq> []"
  by (simp add: respondent_id_format_def zero_pad_nonempty)

lemma respondent_id_format_inject:
  assumes "valid_datetime d" and "valid_datetime d'"
    and "respondent_id_format c d = respondent_id_format c' d'"
  shows "c = c'"
proof -
  have "length (strftime_YmdHMS d) = length (strftime_YmdHMS d')"
    using assms(1,2) by (simp add: length_strftime_YmdHMS)
  then have "zero_pad 6 c = zero_pad 6 c'"
    using assms(3) by (simp add: respondent_id_format_def)
  then have "nat_of_str (zero_pad 6 c) = nat_of_str (zero_pad 6 c')" by simp
  then show ?thesis by (simp add: nat_of_str_zero_pad)
qed


lemma distinct_sub_mset:
  assumes "mset ys \<subseteq># mset xs" and "distinct xs"
  shows "distinct ys"
proof -
  have le: "count (mset ys) a \<le> count (mset xs) a" for a
    using assms(1) by (rule mset_subset_eq_count)
  have one: "count (mset xs) a \<le> 1" for a
    using assms(2) by (simp add: distinct_count_atmost_1)
  have c: "count (mset ys) a \<le> 1" for a
    using le [of a] one [of a] by simp
  have "count (mset ys) a = (if a \<in> set ys then 1 else 0)" for a
  proof (cases "a \<in> set ys")
    case True
    then have "0 < count (mset ys) a" by simp
    then have "count (mset ys) a = 1" using c [of a] by linarith
    then show ?thesis using True by simp
  next
    case False
    then show ?thesis by (simp add: count_mset_0_iff)
  qed
  then show ?thesis by (simp add: distinct_count_atmost_1)
qed

lemma constraint_values_mono:
  assumes "mset ys \<subseteq># mset xs"
  shows "mset (constraint_values c ys) \<subseteq># mset (constraint_values c xs)"
proof -
  obtain Z where Z: "mset xs = mset ys + Z"
    using assms by (auto simp add: mset_subset_eq_exists_conv)
  show ?thesis
    unfolding constraint_values_def mset_concat_map Z by simp
qed

lemma satisfies_constraints_mono:
  assumes "mset ys \<subseteq># mset xs" and "satisfies_constraints cs xs"
  shows "satisfies_constraints cs ys"
  using assms(2) distinct_sub_mset [OF constraint_values_mono [OF assms(1)]]
  by (auto simp add: satisfies_constraints_def list_all_iff)

lemma for_each_create_entity_group:
  assumes "satisfies_constraints (unique_constraints st)
             (nodes st @ map (\<lambda>p. node_of (fst p) (entity_data_of (snd p))) (tagged groups))"
  shows "for_each (create_entity_group never_fails) groups st =
     (None,
      st\<lparr>nodes := nodes st @ map (\<lambda>p. node_of (fst p) (entity_data_of (snd p))) (tagged groups),
         queries := queries st @ map (\<lambda>g. CreateNodes (fst g) (map entity_data_of (snd g))) groups\<rparr>)"
  using assms
proof (induction groups arbitrary: st)
  case Nil
  show ?case by (simp add: tagged_def)
next
  case (Cons g groups)
  let ?first = "map (node_of (fst g)) (map entity_data_of (snd g))"
  let ?rest = "map (\<lambda>p. node_of (fst p) (entity_data_of (snd p))) (tagged groups)"
  let ?st1 = "st\<lparr>nodes := nodes st @ ?first,
                  queries := queries st @ [CreateNodes (fst g) (map entity_data_of (snd g))]\<rparr>"
  have full: "map (\<lambda>p. node_of (fst p) (entity_data_of (snd p))) (tagged (g # groups)) = ?first @ ?rest"
    by (simp add: tagged_def comp_def)
  have sat: "satisfies_constraints (unique_constraints st) (nodes st @ ?first @ ?rest)"
    using Cons.prems unfolding full .
  have "mset (nodes st @ ?first) \<subseteq># mset (nodes st @ ?first @ ?rest)" by simp
  then have sat1: "satisfies_constraints (unique_constraints st) (nodes st @ ?first)"
    using sat by (rule satisfies_constraints_mono)
  have step: "create_entity_group never_fails g st = (None, ?st1)"
    using sat1 by (simp add: create_entity_group_def run_create_nodes_def never_fails_def)
  have "satisfies_constraints (unique_constraints ?st1) (nodes ?st1 @ ?rest)"
    using sat by simp
  from Cons.IH [OF this] show ?case
    unfolding for_each.simps step full by simp
qed

lemma create_entity_batch_effect:
  assumes "satisfies_constraints (unique_constraints st) (nodes st @ map node_of_entity batch)"
  shows "\<exists>st'. create_entity_batch never_fails batch st = (None, st') \<and>
           mset (nodes st') = mset (nodes st) + image_mset node_of_entity (mset batch) \<and>
           edges st' = edges st \<and>
           unique_constraints st' = unique_constraints st \<and>
           mset (submitted_entities st') =
             mset (submitted_entities st) +
             image_mset (\<lambda>e. (entity_type e, entity_data_of e)) (mset batch)"
proof -
  let ?g = "group_by_type entity_type batch"
  let ?new = "map (\<lambda>p. node_of (fst p) (entity_data_of (snd p))) (tagged ?g)"
  let ?qs = "map (\<lambda>g. CreateNodes (fst g) (map entity_data_of (snd g))) ?g"
  let ?st' = "st\<lparr>nodes := nodes st @ ?new, queries := queries st @ ?qs\<rparr>"
  have t: "mset (tagged ?g) = image_mset (\<lambda>x. (entity_type x, x)) (mset batch)"
    by (rule tagged_group_by_type)
  have n: "mset ?new = image_mset node_of_entity (mset batch)"
    unfolding mset_map t by (simp add: multiset.map_comp comp_def node_of_entity_eq)
  have s: "mset (map (\<lambda>p. (fst p, entity_data_of (snd p))) (tagged ?g)) =
      image_mset (\<lambda>e. (entity_type e, entity_data_of e)) (mset batch)"
    unfolding mset_map t by (simp add: multiset.map_comp comp_def)
  have "mset (nodes st @ ?new) \<subseteq># mset (nodes st @ map node_of_entity batch)"
    using n by simp
  then have sat: "satisfies_constraints (unique_constraints st) (nodes st @ ?new)"
    using assms by (rule satisfies_constraints_mono)
  have run: "create_entity_batch never_fails batch st = (None, ?st')"
    unfolding create_entity_batch_def by (rule for_each_create_entity_group [OF sat])
  have q: "queries ?st' = queries st @ ?qs" by simp
  have sub: "submitted_entities ?st' =
      submitted_entities st @ map (\<lambda>p. (fst p, entity_data_of (snd p))) (tagged ?g)"
    unfolding submitted_entities_def q
    by (simp only: map_append concat_append submitted_create_nodes)
  show ?thesis
    using run n s sub by (intro exI [of _ ?st']) simp
qed

lemma for_each_create_entity_batch:
  assumes "satisfies_constraints (unique_constraints st) (nodes st @ map node_of_entity (concat bs))"
  shows "\<exists>st'. for_each (create_entity_batch never_fails) bs st = (None, st') \<and>
           mset (nodes st') = mset (nodes st) + image_mset node_of_entity (mset (concat bs)) \<and>
           edges st' = edges st \<and>
           unique_constraints st' = unique_constraints st \<and>
           mset (submitted_entities st') =
             mset (submitted_entities st) +
             image_mset (\<lambda>e. (entity_type e, entity_data_of e)) (mset (concat bs))"
  using assms
proof (induction bs arbitrary: st)
  case Nil
  show ?case by simp
next
  case (Cons b bs)
  have "mset (nodes st @ map node_of_entity b) \<subseteq>#
      mset (nodes st @ map node_of_entity (concat (b # bs)))"
    by simp
  then have "satisfies_constraints (unique_constraints st) (nodes st @ map node_of_entity b)"
    using Cons.prems by (rule satisfies_constraints_mono)
  from create_entity_batch_effect [OF this]
  obtain st1 where st1: "create_entity_batch never_fails b st = (None, st1)"
      "mset (nodes st1) = mset (nodes st) + image_mset node_of_entity (mset b)"
      "edges st1 = edges st" "unique_constraints st1 = unique_constraints st"
      "mset (submitted_entities st1) =
         mset (submitted_entities st) + image_mset (\<lambda>e. (entity_type e, entity_data_of e)) (mset b)"
    by blast
  have "mset (nodes st1 @ map node_of_entity (concat bs)) \<subseteq>#
      mset (nodes st @ map node_of_entity (concat (b # bs)))"
    using st1(2) by simp
  then have "satisfies_constraints (unique_constraints st1) (nodes st1 @ map node_of_entity (concat bs))"
    unfolding st1(4) using Cons.prems by (rule satisfies_constraints_mono)
  from Cons.IH [OF this]
  obtain st' where st': "for_each (create_entity_batch never_fails) bs st1 = (None, st')"
      "mset (nodes st') = mset (nodes st1) + image_mset node_of_entity (mset (concat bs))"
      "edges st' = edges st1" "unique_constraints st' = unique_constraints st1"
      "mset (submitted_entities st') =
         mset (submitted_entities st1) +
         image_mset (\<lambda>e. (entity_type e, entity_data_of e)) (mset (concat bs))"
    by blast
  show ?case
    using st1 st' by (intro exI [of _ st']) simp
qed

lemma fold_create_relationship_group:
  "fold (create_relationship_group never_fails) groups st =
   st\<lparr>edges := edges st @ concat (map (\<lambda>p. edges_of st (fst p) (rel_data_of (snd p))) (tagged groups)),
      queries := queries st @ map (\<lambda>g. CreateRelationships (fst g) (map rel_data_of (snd g))) groups\<rparr>"
proof (induction groups arbitrary: st)
  case Nil
  show ?case by (simp add: tagged_def)
next
  case (Cons g groups)
  let ?st1 = "create_relationship_group never_fails g st"
  have st1: "?st1 = st\<lparr>edges := edges st @ concat (map (edges_of st (fst g)) (map rel_data_of (snd g))),
                      queries := queries st @ [CreateRelationships (fst g) (map rel_data_of (snd g))]\<rparr>"
    by (simp add: create_relationship_group_def run_create_relationships_def never_fails_def)
  have "nodes ?st1 = nodes st" unfolding st1 by simp
  then have e: "edges_of ?st1 = edges_of st" by (rule edges_of_nodes)
  show ?case
    unfolding fold_simps Cons.IH e
    unfolding st1 by (simp add: tagged_def comp_def)
qed

lemma create_relationship_batch_effect:
  "mset (edges (create_relationship_batch never_fails batch st)) =
     mset (edges st) + (\<Sum>rel \<in># mset batch. mset (edges_of_relationship st rel)) \<and>
   nodes (create_relationship_batch never_fails batch st) = nodes st \<and>
   mset (submitted_relationships (create_relationship_batch never_fails batch st)) =
     mset (submitted_relationships st) +
     image_mset (\<lambda>rel. (relationship_type rel, rel_data_of rel)) (mset batch)"
proof -
  let ?g = "group_by_type relationship_type batch"
  have t: "mset (tagged ?g) = image_mset (\<lambda>x. (relationship_type x, x)) (mset batch)"
    by (rule tagged_group_by_type)
  have e: "mset (concat (map (\<lambda>p. edges_of st (fst p) (rel_data_of (snd p))) (tagged ?g))) =
      (\<Sum>rel \<in># mset batch. mset (edges_of_relationship st rel))"
    unfolding mset_concat_map t
    by (simp add: multiset.map_comp comp_def edges_of_relationship_eq)
  have s: "mset (map (\<lambda>p. (fst p, rel_data_of (snd p))) (tagged ?g)) =
      image_mset (\<lambda>rel. (relationship_type rel, rel_data_of rel)) (mset batch)"
    unfolding mset_map t by (simp add: multiset.map_comp comp_def)
  have q: "queries (create_relationship_batch never_fails batch st) =
      queries st @ map (\<lambda>g. CreateRelationships (fst g) (map rel_data_of (snd g))) ?g"
    by (simp add: create_relationship_batch_def fold_create_relationship_group)
  have sub: "submitted_relationships (create_relationship_batch never_fails batch st) =
      submitted_relationships st @ map (\<lambda>p. (fst p, rel_data_of (snd p))) (tagged ?g)"
    unfolding submitted_relationships_def q
    by (simp only: map_append concat_append submitted_create_relationships)
  have "edges (create_relationship_batch never_fails batch st) =
      edges st @ concat (map (\<lambda>p. edges_of st (fst p) (rel_data_of (snd p))) (tagged ?g))"
    and "nodes (create_relationship_batch never_fails batch st) = nodes st"
    by (simp_all add: create_relationship_batch_def fold_create_relationship_group)
  then show ?thesis
    using e s sub by simp
qed

lemma fold_create_relationship_batch:
  "mset (edges (fold (create_relationship_batch never_fails) bs st)) =
     mset (edges st) + (\<Sum>rel \<in># mset (concat bs). mset (edges_of_relationship st rel)) \<and>
   nodes (fold (create_relationship_batch never_fails) bs st) = nodes st \<and>
   mset (submitted_relationships (fold (create_relationship_batch never_fails) bs st)) =
     mset (submitted_relationships st) +
     image_mset (\<lambda>rel. (relationship_type rel, rel_data_of rel)) (mset (concat bs))"
proof (induction bs arbitrary: st)
  case Nil
  show ?case by simp
next
  case (Cons b bs)
  let ?st1 = "create_relationship_batch never_fails b st"
  have n: "nodes ?st1 = nodes st"
    using create_relationship_batch_effect [of b st] by simp
  show ?case
    using Cons.IH [of ?st1] create_relationship_batch_effect [of b st]
      edges_of_relationship_nodes [OF n]
    by simp
qed

text \<open>
  C7, as the code has it: for a batch size of at least 1 the batches concatenate to the
  input list. When no query fails, that is, when the store fails on none and the nodes to
  create keep its uniqueness constraints, both loading loops end without error, every
  entity and every relationship is submitted once, and the nodes and relationships added
  to the store are those of the input, whatever the batch size.
\<close>

theorem batch_size_invariance:
  assumes "1 \<le> b"
    and "satisfies_constraints (unique_constraints st) (nodes st @ map node_of_entity ents)"
  shows "(\<exists>bs st'.
            batches_of b ents = Inr bs \<and> concat bs = ents \<and>
            create_entities_batch never_fails ents (Some b) st = (None, st') \<and>
            mset (submitted_entities st') =
              mset (submitted_entities st) +
              image_mset (\<lambda>e. (entity_type e, entity_data_of e)) (mset ents) \<and>
            mset (nodes st') = mset (nodes st) + image_mset node_of_entity (mset ents) \<and>
            length (nodes st') = length (nodes st) + length ents \<and>
            edges st' = edges st) \<and>
         (\<exists>bs st'.
            batches_of b rels = Inr bs \<and> concat bs = rels \<and>
            create_relationships_batch never_fails rels (Some b) st = (None, st') \<and>
            mset (submitted_relationships st') =
              mset (submitted_relationships st) +
              image_mset (\<lambda>rel. (relationship_type rel, rel_data_of rel)) (mset rels) \<and>
            mset (edges st') =
              mset (edges st) + (\<Sum>rel \<in># mset rels. mset (edges_of_relationship st rel)) \<and>
            nodes st' = nodes st)"
proof -
  have pos: "0 < nat b" using assms(1) by simp
  have be: "batches_of b ents = Inr (batches_from (nat b) 0 ents)"
    and br: "batches_of b rels = Inr (batches_from (nat b) 0 rels)"
    using assms(1) by (simp_all add: batches_of_def)
  have ce: "concat (batches_from (nat b) 0 ents) = ents"
    and cr: "concat (batches_from (nat b) 0 rels) = rels"
    using concat_batches_from [OF pos, of 0] by simp_all
  have "satisfies_constraints (unique_constraints st)
      (nodes st @ map node_of_entity (concat (batches_from (nat b) 0 ents)))"
    using assms(2) ce by simp
  from for_each_create_entity_batch [OF this]
  obtain se where se: "for_each (create_entity_batch never_fails) (batches_from (nat b) 0 ents) st = (None, se)"
      "mset (nodes se) = mset (nodes st) + image_mset node_of_entity (mset ents)"
      "edges se = edges st"
      "mset (submitted_entities se) =
         mset (submitted_entities st) +
         image_mset (\<lambda>e. (entity_type e, entity_data_of e)) (mset ents)"
    using ce by auto
  have "size (mset (nodes se)) = size (mset (nodes st)) + size (mset ents)"
    unfolding se(2) by simp
  then have len: "length (nodes se) = length (nodes st) + length ents" by simp
  let ?sr = "fold (create_relationship_batch never_fails) (batches_from (nat b) 0 rels) st"
  have r: "mset (edges ?sr) =
        mset (edges st) + (\<Sum>rel \<in># mset rels. mset (edges_of_relationship st rel))"
      "nodes ?sr = nodes st"
      "mset (submitted_relationships ?sr) =
         mset (submitted_relationships st) +
         image_mset (\<lambda>rel. (relationship_type rel, rel_data_of rel)) (mset rels)"
    using fold_create_relationship_batch [of "batches_from (nat b) 0 rels" st] cr by simp_all
  have "create_entities_batch never_fails ents (Some b) st = (None, se)"
    using se(1) by (simp add: create_entities_batch_def be)
  moreover have "create_relationships_batch never_fails rels (Some b) st = (None, ?sr)"
    by (simp add: create_relationships_batch_def br)
  ultimately show ?thesis
    using be br ce cr se len r by simp
qed

theorem batch_size_invariance_witness:
  "(1::int) \<le> 2 \<and>
   satisfies_constraints (unique_constraints constrained_store)
     (nodes constrained_store @ map node_of_entity example_entities) \<and>
   satisfies_constraints (unique_constraints loaded_store)
     (nodes loaded_store @ map node_of_entity []) \<and>
   (\<exists>st'. create_entities_batch never_fails example_entities (Some 2) constrained_store = (None, st') \<and>
          length (nodes st') = 3 \<and> edges st' = []) \<and>
   (\<exists>st'. create_relationships_batch never_fails example_relationships (Some 2) loaded_store = (None, st') \<and>
          length (edges st') = 2 \<and> length (nodes st') = 3)"
proof -
  have h1: "satisfies_constraints (unique_constraints constrained_store)
      (nodes constrained_store @ map node_of_entity example_entities)"
    by code_simp
  have h2: "satisfies_constraints (unique_constraints loaded_store)
      (nodes loaded_store @ map node_of_entity [])"
    by code_simp
  have n: "nodes constrained_store = []" "edges constrained_store = []"
    by code_simp+
  have e: "length (edges (snd (create_relationships_batch never_fails example_relationships (Some 2)
      loaded_store))) = 2"
    "length (nodes loaded_store) = 3"
    by code_simp+
  have a: "\<exists>st'. create_entities_batch never_fails example_entities (Some 2) constrained_store = (None, st') \<and>
      length (nodes st') = 3 \<and> edges st' = []"
    using batch_size_invariance [of 2 constrained_store example_entities "[]", OF _ h1] n
    by (auto simp add: example_entities_def)
  have b: "\<exists>st'. create_relationships_batch never_fails example_relationships (Some 2) loaded_store = (None, st') \<and>
      length (edges st') = 2 \<and> length (nodes st') = 3"
    using batch_size_invariance [of 2 loaded_store "[]" example_relationships, OF _ h2] e
    by auto
  show ?thesis using h1 h2 a b by simp
qed

theorem batch_size_dependence:
  "create_entities_batch never_fails duplicate_respondents (Some 1) constrained_store \<noteq>
     create_entities_batch never_fails duplicate_respondents (Some 2) constrained_store \<and>
   fst (create_entities_batch never_fails duplicate_respondents (Some 1) constrained_store) = Some StoreError \<and>
   length (nodes (snd (create_entities_batch never_fails duplicate_respondents (Some 1) constrained_store))) = 1 \<and>
   fst (create_entities_batch never_fails duplicate_respondents (Some 2) constrained_store) = Some StoreError \<and>
   length (nodes (snd (create_entities_batch never_fails duplicate_respondents (Some 2) constrained_store))) = 0"
proof -
  have a: "fst (create_entities_batch never_fails duplicate_respondents (Some 1) constrained_store) = Some StoreError"
    "length (nodes (snd (create_entities_batch never_fails duplicate_respondents (Some 1) constrained_store))) = 1"
    "fst (create_entities_batch never_fails duplicate_respondents (Some 2) constrained_store) = Some StoreError"
    "length (nodes (snd (create_entities_batch never_fails duplicate_respondents (Some 2) constrained_store))) = 0"
    by code_simp+
  then have "create_entities_batch never_fails duplicate_respondents (Some 1) constrained_store \<noteq>
     create_entities_batch never_fails duplicate_respondents (Some 2) constrained_store"
    by (metis zero_neq_one)
  then show ?thesis using a by simp
qed

lemma mapping_response_category:
  "respondent_id_mapping (extract_response_category ont clk cols row rid m s) = respondent_id_mapping s"
  by (simp add: extract_response_category_def Let_def)

lemma mapping_response_row:
  "respondent_id_mapping (extract_response_row ont clk cols ir s) = respondent_id_mapping s"
proof -
  have "respondent_id_mapping (fold (extract_response_category ont clk cols row rid) ms s) =
      respondent_id_mapping s" for row rid ms
    by (induction ms arbitrary: s) (simp_all add: mapping_response_category)
  then show ?thesis by (simp add: extract_response_row_def)
qed

lemma mapping_response_entities:
  "respondent_id_mapping (extract_response_entities ont clk df s) = respondent_id_mapping s"
proof -
  have "respondent_id_mapping (fold (extract_response_row ont clk cols) irs s) =
      respondent_id_mapping s" for cols irs
    by (induction irs arbitrary: s) (simp_all add: mapping_response_row)
  then show ?thesis by (simp add: extract_response_entities_def)
qed

lemma mapping_question_column:
  "respondent_id_mapping (snd (extract_question_column ont df column ps)) =
   respondent_id_mapping (snd ps)"
  by (simp add: extract_question_column_def Let_def)

lemma mapping_question_entities:
  "respondent_id_mapping (extract_question_entities ont df s) = respondent_id_mapping s"
proof -
  have "respondent_id_mapping (snd (fold (extract_question_column ont df) cs ps)) =
      respondent_id_mapping (snd ps)" for cs ps
    by (induction cs arbitrary: ps) (simp_all add: mapping_question_column)
  then show ?thesis by (simp add: extract_question_entities_def)
qed

lemma mapping_link_survey_respondent:
  "respondent_id_mapping (link_survey_respondent p ir s) = respondent_id_mapping s"
  by (simp add: link_survey_respondent_def)

lemma mapping_survey_project:
  "respondent_id_mapping (extract_survey_project df p s) = respondent_id_mapping s"
proof -
  have "respondent_id_mapping (fold (link_survey_respondent p) irs t) = respondent_id_mapping t"
    for irs t
    by (induction irs arbitrary: t) (simp_all add: mapping_link_survey_respondent)
  then show ?thesis by (simp add: extract_survey_project_def)
qed

lemma mapping_survey_metadata:
  "respondent_id_mapping (extract_survey_metadata df s) = respondent_id_mapping s"
proof -
  have "respondent_id_mapping (fold (extract_survey_project df) ps t) = respondent_id_mapping t"
    for ps t
    by (induction ps arbitrary: t) (simp_all add: mapping_survey_project)
  then show ?thesis by (simp add: extract_survey_metadata_def)
qed

lemma mapping_build:
  "respondent_id_mapping (snd (build_knowledge_graph ont clk (Inr df) s)) =
   respondent_id_mapping
     (extract_respondent_entities clk df
        (s\<lparr>respondent_counter := 1, respondent_id_mapping := Map.empty\<rparr>))"
  by (simp add: build_knowledge_graph_def Let_def validate_entity_relationships_state
      mapping_survey_metadata mapping_question_entities mapping_response_entities)

text \<open>
  C4, as the code has it: within one run the sequence number of row \<open>i\<close> is \<open>i + 1\<close>,
  the identifier of a row is that number padded with zeros to at least six digits
  (exactly six below 1000000) followed by the fourteen digits of a clock reading, and the
  identifiers of two different rows differ.
\<close>

theorem respondent_ids_distinct_within_run:
  assumes "valid_clock clk"
    and "build_knowledge_graph ont clk (Inr df) s = (res, s')"
    and "i < length (rows df)" and "j < length (rows df)" and "i \<noteq> j"
  shows "\<exists>ki kj.
           respondent_id_mapping s' i = Some (zero_pad 6 (i + 1) @ strftime_YmdHMS (clk ki)) \<and>
           respondent_id_mapping s' j = Some (zero_pad 6 (j + 1) @ strftime_YmdHMS (clk kj)) \<and>
           respondent_id_mapping s' i \<noteq> respondent_id_mapping s' j \<and>
           length (strftime_YmdHMS (clk ki)) = 14 \<and>
           (i + 1 < 1000000 \<longrightarrow> length (zero_pad 6 (i + 1)) = 6)"
proof -
  let ?s0 = "s\<lparr>respondent_counter := 1, respondent_id_mapping := Map.empty\<rparr>"
  let ?s1 = "extract_respondent_entities clk df ?s0"
  have m: "respondent_id_mapping s' = respondent_id_mapping ?s1"
    using assms(2) mapping_build [of ont clk df s] by simp
  obtain es where es: "length es = length (rows df)"
      "\<forall>r < length (rows df).
         is_respondent_entity_of clk (columns df) r (row_series df (rows df ! r))
           (respondent_counter ?s0 + r) (es ! r) \<and>
         respondent_id_mapping ?s1 r = Some (entity_id (es ! r))"
    using extract_respondent_entities_rows [of clk df ?s0] by blast
  obtain ki where ki: "entity_id (es ! i) = respondent_id_format (1 + i) (clk ki)"
    using es(2) assms(3) by (auto simp add: is_respondent_entity_of_def)
  obtain kj where kj: "entity_id (es ! j) = respondent_id_format (1 + j) (clk kj)"
    using es(2) assms(4) by (auto simp add: is_respondent_entity_of_def)
  have v: "valid_datetime (clk ki)" "valid_datetime (clk kj)"
    using assms(1) by (simp_all add: valid_clock_def)
  have ne: "entity_id (es ! i) \<noteq> entity_id (es ! j)"
  proof
    assume "entity_id (es ! i) = entity_id (es ! j)"
    then have "respondent_id_format (1 + i) (clk ki) = respondent_id_format (1 + j) (clk kj)"
      using ki kj by simp
    then have "1 + i = 1 + j"
      by (rule respondent_id_format_inject [OF v])
    then show False using assms(5) by simp
  qed
  have mi: "respondent_id_mapping s' i = Some (entity_id (es ! i))"
    and mj: "respondent_id_mapping s' j = Some (entity_id (es ! j))"
    using es(2) assms(3,4) m by simp_all
  have l6: "length (zero_pad 6 (i + 1)) = 6" if "i + 1 < 1000000"
    using that length_zero_pad [of "i + 1" 6] by simp
  show ?thesis
    using mi mj ki kj ne l6 length_strftime_YmdHMS [OF v(1)]
    by (intro exI [of _ ki] exI [of _ kj]) (simp add: respondent_id_format_def)
qed

theorem respondent_ids_distinct_within_run_witness:
  "valid_clock example_clock \<and>
   (0::nat) < length (rows example_table) \<and> (1::nat) < length (rows example_table) \<and>
   (0::nat) \<noteq> 1 \<and>
   respondent_id_mapping
     (snd (build_knowledge_graph example_ontology example_clock (Inr example_table) (init_builder 0))) 0 \<noteq>
   respondent_id_mapping
     (snd (build_knowledge_graph example_ontology example_clock (Inr example_table) (init_builder 0))) 1"
proof -
  have v: "valid_clock example_clock"
    by (simp add: valid_clock_def example_clock_def example_time_def valid_datetime_def)
  have l: "(0::nat) < length (rows example_table)" "(1::nat) < length (rows example_table)"
    by (simp_all add: example_table_def)
  have "build_knowledge_graph example_ontology example_clock (Inr example_table) (init_builder 0) =
      (fst (build_knowledge_graph example_ontology example_clock (Inr example_table) (init_builder 0)),
       snd (build_knowledge_graph example_ontology example_clock (Inr example_table) (init_builder 0)))"
    by simp
  from respondent_ids_distinct_within_run [OF v this l]
  show ?thesis using v l by auto
qed

text \<open>
  Two runs of one builder within one second: each restarts the sequence at 1, and the
  first row gets the same identifier in both.
\<close>

theorem respondent_ids_reused_across_runs:
  "respondent_id_mapping
     (snd (build_knowledge_graph empty_ontology example_clock (Inr one_row_table) (init_builder 0))) 0 =
   Some ''00000120261104020809'' \<and>
   respondent_id_mapping
     (snd (build_knowledge_graph empty_ontology example_clock (Inr one_row_table)
        (snd (build_knowledge_graph empty_ontology example_clock (Inr one_row_table) (init_builder 0)))))
     0 =
   Some ''00000120261104020809''"
  by code_simp

end
